theory Spec2Isabelle
  imports Complex_Main
begin

section \<open>Python values shared by the server modules\<close>

text \<open>
  The server is Python. Exceptions are values of \<open>py_error\<close>; a computation that may raise
  returns \<open>py_error + 'a\<close> with \<open>Inl\<close> for the exception. Floats are modelled as reals
  (rounding and NaN are outside the model), strings as lists of characters.
\<close>

datatype py_error =
    KeyError string
  | IndexError string
  | TypeError string
  | ValueError string
  | RuntimeError string
  | CollaboratorError string

text \<open>\<open>str(e)\<close>: the message of the exception; a \<open>KeyError\<close> prints its key in quotes.\<close>

fun str_of_error :: "py_error \<Rightarrow> string" where
  "str_of_error (KeyError k) = CHR 0x27 # k @ [CHR 0x27]"
| "str_of_error (IndexError m) = m"
| "str_of_error (TypeError m) = m"
| "str_of_error (ValueError m) = m"
| "str_of_error (RuntimeError m) = m"
| "str_of_error (CollaboratorError m) = m"

definition bind_err :: "py_error + 'a \<Rightarrow> ('a \<Rightarrow> py_error + 'b) \<Rightarrow> py_error + 'b" where
  "bind_err m f = (case m of Inl e \<Rightarrow> Inl e | Inr x \<Rightarrow> f x)"

text \<open>\<open>xs[i]\<close> for \<open>i \<ge> 0\<close>: raises \<open>IndexError\<close> out of range.\<close>

definition item :: "'a list \<Rightarrow> nat \<Rightarrow> py_error + 'a" where
  "item xs i = (if i < length xs then Inr (xs ! i) else Inl (IndexError ''list index out of range''))"

text \<open>
  A character of the model is a code point below 256; \<open>len\<close> counts code points. Of these
  code points \<open>str.isspace\<close>, and so \<open>str.strip()\<close>, takes as whitespace: tab, newline,
  vertical tab, form feed, carriage return, the separators 0x1C to 0x1F, the space, the
  next-line control 0x85 and the no-break space 0xA0.
\<close>

definition is_space :: "char \<Rightarrow> bool" where
  "is_space c = (c \<in> set [CHR 0x09, CHR 0x0A, CHR 0x0B, CHR 0x0C, CHR 0x0D,
                            CHR 0x1C, CHR 0x1D, CHR 0x1E, CHR 0x1F, CHR 0x20,
                            CHR 0x85, CHR 0xA0])"

definition strip :: "string \<Rightarrow> string" where
  "strip s = rev (dropWhile is_space (rev (dropWhile is_space s)))"

text \<open>\<open>s.split('\n')\<close>: the pieces between newlines; always at least one piece.\<close>

fun split_nl :: "string \<Rightarrow> string list" where
  "split_nl [] = [[]]"
| "split_nl (c # cs) =
     (if c = CHR 0x0A then [] # split_nl cs
      else (case split_nl cs of [] \<Rightarrow> [[c]] | p # ps \<Rightarrow> (c # p) # ps))"

text \<open>\<open>sep.join(parts)\<close>.\<close>

fun join :: "string \<Rightarrow> string list \<Rightarrow> string" where
  "join sep [] = []"
| "join sep [p] = p"
| "join sep (p # q # ps) = p @ sep @ join sep (q # ps)"

text \<open>\<open>str(i)\<close> for a non-negative integer, used by the generated ids \<open>doc_{i}\<close>.\<close>

definition digit_char :: "nat \<Rightarrow> char" where
  "digit_char d = char_of (48 + d)"

fun str_of_nat :: "nat \<Rightarrow> string" where
  "str_of_nat n = (if n < 10 then [digit_char n] else str_of_nat (n div 10) @ [digit_char (n mod 10)])"

section \<open>The embedding index (ChromaDB collection) as seen by the server\<close>

text \<open>
  A metadata dictionary is an association list from keys to values. The result of
  \<open>collection.query(query_texts=[query], n_results=top_k)\<close> is a dictionary whose entries
  \<open>ids\<close>, \<open>documents\<close>, \<open>metadatas\<close> and \<open>distances\<close> are lists with one row per query text.
  An entry may be missing (\<open>Absent\<close>), hold \<open>None\<close> (\<open>PyNone\<close>, what the index stores under
  a field that was not requested) or hold the rows. The text of a chunk is a string, or
  \<open>None\<close> for a chunk stored without a document.
\<close>

type_synonym metadata = "(string \<times> string) list"

datatype 'a field = Absent | PyNone | Present "'a list list"

record query_result =
  res_ids :: "string field"
  res_documents :: "string option field"
  res_metadatas :: "metadata field"
  res_distances :: "real field"

text \<open>The index is a parameter: given the query text and \<open>n_results\<close> it raises or returns a result.\<close>

type_synonym collection_query = "string \<Rightarrow> int \<Rightarrow> py_error + query_result"

text \<open>Calls to collaborators made by an operation, in order (what a call-counting mock records).\<close>

datatype call = StoreQuery string int | SpanExtractor string string

text \<open>\<open>results[key][0]\<close>.\<close>

definition first_row :: "string \<Rightarrow> 'a field \<Rightarrow> py_error + 'a list" where
  "first_row key f =
     (case f of
        Absent \<Rightarrow> Inl (KeyError key)
      | PyNone \<Rightarrow> Inl (TypeError ''NoneType object is not subscriptable'')
      | Present [] \<Rightarrow> Inl (IndexError ''list index out of range'')
      | Present (row # _) \<Rightarrow> Inr row)"

text \<open>Truth value of \<open>results.get(key)\<close> and of \<open>key in results and results[key]\<close>.\<close>

definition truthy :: "'a field \<Rightarrow> bool" where
  "truthy f = (case f of Absent \<Rightarrow> False | PyNone \<Rightarrow> False | Present rows \<Rightarrow> rows \<noteq> [])"

section \<open>document_retrieval.retrieve_documents\<close>

record match =
  match_id :: string
  match_text :: string
  match_metadata :: metadata
  similarity :: real
  raw_distance :: "real option"

text \<open>The result envelope: \<open>{"matches": ...}\<close>, with \<open>"error": str(e)\<close> on the except branch.\<close>

record retrieval =
  matches :: "match list"
  error :: "string option"

text \<open>
  \<open>results['distances'][0][i]\<close> under the guard
  \<open>'distances' in results and i < len(results['distances'][0])\<close>, which the loop body
  evaluates at lines 42, 58 and 68 with the same outcome: \<open>None\<close> when the guard is false.
  The guard itself raises when the entry holds \<open>None\<close> or has no row.
\<close>

definition distance_at :: "query_result \<Rightarrow> nat \<Rightarrow> py_error + real option" where
  "distance_at results i =
     (case res_distances results of
        Absent \<Rightarrow> Inr None
      | f \<Rightarrow> bind_err (first_row ''distances'' f)
               (\<lambda>row. Inr (if i < length row then Some (row ! i) else None)))"

text \<open>
  \<open>results['metadatas'][0][i] if 'metadatas' in results and results['metadatas']
  and i < len(results['metadatas'][0]) else {}\<close>.
\<close>

definition metadata_at :: "query_result \<Rightarrow> nat \<Rightarrow> metadata" where
  "metadata_at results i =
     (case res_metadatas results of
        Present (row # _) \<Rightarrow> (if i < length row then row ! i else [])
      | _ \<Rightarrow> [])"

text \<open>\<open>not doc_text\<close>: the text is \<open>None\<close> or the empty string.\<close>

definition falsy_text :: "string option \<Rightarrow> bool" where
  "falsy_text t = (case t of None \<Rightarrow> True | Some s \<Rightarrow> s = [])"

text \<open>
  One iteration of the loop over \<open>enumerate(results['ids'][0])\<close> (lines 39 to 69):
  \<open>None\<close> is the \<open>continue\<close> of a chunk below the threshold, \<open>Some m\<close> the appended match.
  The log line 61 slices the text, which raises when the text is still \<open>None\<close>.
\<close>

definition match_step :: "query_result \<Rightarrow> real \<Rightarrow> nat \<Rightarrow> string \<Rightarrow> py_error + match option" where
  "match_step results similarity_threshold i doc_id =
     bind_err (distance_at results i) (\<lambda>d.
       if (case d of Some dst \<Rightarrow> 1 - dst < similarity_threshold | None \<Rightarrow> False) then Inr None
       else
         bind_err (first_row ''documents'' (res_documents results)) (\<lambda>docs.
         bind_err (item docs i) (\<lambda>doc_text0.
           let doc_metadata = metadata_at results i;
               doc_text = (case map_of doc_metadata ''text'' of
                             Some t \<Rightarrow> (if falsy_text doc_text0 then Some t else doc_text0)
                           | None \<Rightarrow> doc_text0);
               relevance = (case d of Some dst \<Rightarrow> 1 - dst | None \<Rightarrow> 0)
           in (case doc_text of
                 None \<Rightarrow> Inl (TypeError ''NoneType object is not subscriptable'')
               | Some txt \<Rightarrow>
                   Inr (Some \<lparr>match_id = doc_id, match_text = txt, match_metadata = doc_metadata,
                                 similarity = relevance, raw_distance = d\<rparr>)))))"

fun collect_matches ::
  "query_result \<Rightarrow> real \<Rightarrow> (nat \<times> string) list \<Rightarrow> match list \<Rightarrow> py_error + match list" where
  "collect_matches results similarity_threshold [] ms = Inr ms"
| "collect_matches results similarity_threshold ((i, doc_id) # rest) ms =
     (case match_step results similarity_threshold i doc_id of
        Inl e \<Rightarrow> Inl e
      | Inr None \<Rightarrow> collect_matches results similarity_threshold rest ms
      | Inr (Some m) \<Rightarrow> collect_matches results similarity_threshold rest (ms @ [m]))"

text \<open>
  The check of line 33:
  \<open>not results or 'documents' not in results or not results['documents']
  or not results['documents'][0]\<close>.
\<close>

definition no_documents :: "query_result \<Rightarrow> bool" where
  "no_documents results =
     (case res_documents results of
        Absent \<Rightarrow> True | PyNone \<Rightarrow> True | Present [] \<Rightarrow> True | Present (row # _) \<Rightarrow> row = [])"

text \<open>
  \<open>matches.sort(key=lambda x: x['similarity'], reverse=True)\<close>: Python's sort is stable, also
  with \<open>reverse=True\<close>; an ascending stable sort on the negated key is the same order.
\<close>

definition sort_matches :: "match list \<Rightarrow> match list" where
  "sort_matches ms = sort_key (\<lambda>m. - similarity m) ms"

text \<open>
  The \<open>try\<close> block up to the sort (lines 27 to 69): the matches that survive the
  threshold, in the order the store returned them.
\<close>

definition surviving_matches ::
  "collection_query \<Rightarrow> string \<Rightarrow> int \<Rightarrow> real \<Rightarrow> py_error + match list" where
  "surviving_matches collection query top_k similarity_threshold =
     bind_err (collection query top_k) (\<lambda>results.
       if no_documents results then Inr []
       else
         bind_err (first_row ''ids'' (res_ids results)) (\<lambda>ids0.
           collect_matches results similarity_threshold (enumerate 0 ids0) []))"

text \<open>
  The body of the \<open>try\<close> block (lines 27 to 75). The early return of line 35 gives the
  empty list, which sorting leaves as it is.
\<close>

definition retrieve_body :: "collection_query \<Rightarrow> string \<Rightarrow> int \<Rightarrow> real \<Rightarrow> py_error + match list" where
  "retrieve_body collection query top_k similarity_threshold =
     bind_err (surviving_matches collection query top_k similarity_threshold) (\<lambda>ms.
       Inr (sort_matches ms))"

definition retrieve_documents ::
  "collection_query \<Rightarrow> string \<Rightarrow> int \<Rightarrow> real \<Rightarrow> retrieval \<times> call list" where
  "retrieve_documents collection query top_k similarity_threshold =
     (if query = [] then (\<lparr>matches = [], error = None\<rparr>, [])
      else
        ((case retrieve_body collection query top_k similarity_threshold of
            Inr ms \<Rightarrow> \<lparr>matches = ms, error = None\<rparr>
          | Inl e \<Rightarrow> \<lparr>matches = [], error = Some (str_of_error e)\<rparr>),
         [StoreQuery query top_k]))"

text \<open>
  The contract the retriever requires from the store (the parallel arrays of the query
  result): it returns at most \<open>top_k\<close> ids and a distance for each of them.
\<close>

definition parallel_arrays_within :: "int \<Rightarrow> query_result \<Rightarrow> bool" where
  "parallel_arrays_within top_k results =
     (case res_ids results of
        Present (ids0 # _) \<Rightarrow>
          int (length ids0) \<le> top_k \<and>
          (case res_distances results of
             Present (dists # _) \<Rightarrow> length ids0 \<le> length dists
           | _ \<Rightarrow> False)
      | _ \<Rightarrow> True)"

definition store_contract :: "collection_query \<Rightarrow> string \<Rightarrow> int \<Rightarrow> bool" where
  "store_contract collection query top_k =
     (case collection query top_k of Inl e \<Rightarrow> True | Inr results \<Rightarrow> parallel_arrays_within top_k results)"

text \<open>The store of the scenario: two chunks at distances 0.1 and 0.5 from every query.\<close>

definition two_chunk_result :: query_result where
  "two_chunk_result =
     \<lparr>res_ids = Present [[''doc_a'', ''doc_b'']],
      res_documents = Present [[Some ''a contract is an agreement'', Some ''unrelated text'']],
      res_metadatas = Present [[[(''source'', ''contract.pdf'')], [(''source'', ''notes.txt'')]]],
      res_distances = Present [[1/10, 1/2]]\<rparr>"

definition two_chunk_store :: collection_query where
  "two_chunk_store query n_results = Inr two_chunk_result"

text \<open>
  The ranking as the specification describes it, on the positions of the store's row: the
  positions whose similarity \<open>1 - distance\<close> reaches the threshold, by descending
  similarity, equal similarities in the store's return order.
\<close>

definition ranked_positions :: "real list \<Rightarrow> nat \<Rightarrow> real \<Rightarrow> nat list" where
  "ranked_positions dists n similarity_threshold =
     sort_key (\<lambda>i. - (1 - dists ! i))
       (filter (\<lambda>i. similarity_threshold \<le> 1 - dists ! i) [0..<n])"

text \<open>
  The order of a ranking: position \<open>i\<close> comes before position \<open>j\<close> when it is more similar,
  or as similar and returned earlier by the store.
\<close>

definition ranks_before :: "real list \<Rightarrow> nat \<Rightarrow> nat \<Rightarrow> bool" where
  "ranks_before dists i j =
     (1 - dists ! j < 1 - dists ! i \<or> (1 - dists ! i = 1 - dists ! j \<and> i < j))"

text \<open>
  A match is drawn from position \<open>i\<close> of the store's row, whose id is \<open>ident\<close>: it carries
  that id, the similarity \<open>1 - distance\<close> of that position and its distance.
\<close>

definition drawn_from :: "real list \<Rightarrow> match \<Rightarrow> nat \<times> string \<Rightarrow> bool" where
  "drawn_from dists m p =
     (match_id m = snd p \<and> similarity m = 1 - dists ! fst p \<and> raw_distance m = Some (dists ! fst p))"

text \<open>A store with ties: four chunks at distances 0.2, 0.1, 0.2 and 0.5.\<close>

definition tie_result :: query_result where
  "tie_result =
     \<lparr>res_ids = Present [[''first'', ''second'', ''third'', ''fourth'']],
      res_documents = Present [[Some ''one'', Some ''two'', Some ''three'', Some ''four'']],
      res_metadatas = Present [[[], [], [], []]],
      res_distances = Present [[2/10, 1/10, 2/10, 5/10]]\<rparr>"

definition tie_store :: collection_query where
  "tie_store query n_results = Inr tie_result"

text \<open>
  What goes wrong for the chunk at position \<open>i\<close> of a result that has documents, read off
  the result: the distances hold \<open>None\<close> or no row; or the chunk is not dropped and has no
  entry in the documents row, or a \<open>None\<close> text with no \<open>text\<close> in its metadata.
\<close>

definition below_threshold :: "query_result \<Rightarrow> real \<Rightarrow> nat \<Rightarrow> bool" where
  "below_threshold results similarity_threshold i =
     (case res_distances results of
        Present (row # _) \<Rightarrow> i < length row \<and> 1 - row ! i < similarity_threshold
      | _ \<Rightarrow> False)"

definition chunk_fault :: "query_result \<Rightarrow> real \<Rightarrow> nat \<Rightarrow> py_error option" where
  "chunk_fault results similarity_threshold i =
     (case res_distances results of
        PyNone \<Rightarrow> Some (TypeError ''NoneType object is not subscriptable'')
      | Present [] \<Rightarrow> Some (IndexError ''list index out of range'')
      | _ \<Rightarrow>
          if below_threshold results similarity_threshold i then None
          else
            (case res_documents results of
               Present (row # _) \<Rightarrow>
                 if length row \<le> i then Some (IndexError ''list index out of range'')
                 else if row ! i = None \<and> map_of (metadata_at results i) ''text'' = None
                 then Some (TypeError ''NoneType object is not subscriptable'')
                 else None
             | _ \<Rightarrow> None))"

text \<open>Results that are ill-formed: no \<open>ids\<close> entry, and a documents row shorter than the ids.\<close>

definition no_ids_result :: query_result where
  "no_ids_result =
     \<lparr>res_ids = Absent, res_documents = Present [[Some ''one'']],
      res_metadatas = Absent, res_distances = Absent\<rparr>"

definition no_ids_store :: collection_query where
  "no_ids_store query n_results = Inr no_ids_result"

definition short_row_result :: query_result where
  "short_row_result =
     \<lparr>res_ids = Present [[''first'', ''second'']], res_documents = Present [[Some ''one'']],
      res_metadatas = Absent, res_distances = Present [[1/10, 1/10]]\<rparr>"

definition short_row_store :: collection_query where
  "short_row_store query n_results = Inr short_row_result"

section \<open>chatbot_model.EnhancedQAModel\<close>

subsection \<open>The scoring collaborators\<close>

text \<open>
  The tokenizer and the question-answering model are parameters. Each call may raise.
  \<^item> \<open>tok_encode env text\<close> is \<open>tokenizer.encode(text, add_special_tokens=False)\<close>;
  \<^item> \<open>tok_decode env skip tokens\<close> is \<open>tokenizer.decode(tokens, skip_special_tokens=skip)\<close>;
  \<^item> \<open>tok_pair env question chunk max_length\<close> is \<open>input_ids[0]\<close> of
    \<open>tokenizer(question, chunk, add_special_tokens=True, max_length=max_length,
    truncation=True, padding="max_length")\<close>;
  \<^item> \<open>model_forward env input_ids\<close> is \<open>(start_logits[0], end_logits[0])\<close> of the model's output.
\<close>

type_synonym token = nat

record qa_env =
  tok_encode :: "string \<Rightarrow> py_error + token list"
  tok_decode :: "bool \<Rightarrow> token list \<Rightarrow> py_error + string"
  tok_pair :: "string \<Rightarrow> string \<Rightarrow> nat \<Rightarrow> py_error + token list"
  model_forward :: "token list \<Rightarrow> py_error + real list \<times> real list"

text \<open>
  \<open>torch.topk(logits, k).indices.tolist()\<close>: the positions of the \<open>k\<close> largest entries,
  largest first; it raises when the tensor has fewer than \<open>k\<close> entries. Among equal entries
  the model takes the lower position first (torch leaves that order open).
\<close>

definition topk :: "real list \<Rightarrow> nat \<Rightarrow> py_error + nat list" where
  "topk logits k =
     (if length logits < k then Inl (RuntimeError ''selected index k out of range'')
      else Inr (take k (sort_key (\<lambda>i. - (logits ! i)) [0..<length logits])))"

text \<open>\<open>xs[i:j]\<close> for \<open>0 \<le> i\<close>, \<open>0 \<le> j\<close>: never raises.\<close>

definition slice :: "'a list \<Rightarrow> nat \<Rightarrow> nat \<Rightarrow> 'a list" where
  "slice xs i j = take (j - i) (drop i xs)"

subsection \<open>Documents and answers\<close>

text \<open>
  The dictionaries built by \<open>EnhancedQAModel.retrieve_documents\<close>; the text is what the
  store returned for the chunk, a string or \<open>None\<close>.
\<close>

record retrieved_doc =
  rd_text :: "string option"
  rd_metadata :: metadata
  rd_distance :: real
  rd_id :: string

text \<open>
  An element of the document list of \<open>process_query\<close>: a dictionary with a \<open>text\<close> entry, a
  string, or any other object (also a dictionary without \<open>text\<close>), given by what \<open>str(doc)\<close>
  does on it.
\<close>

datatype document = DocDict retrieved_doc | DocStr string | DocOther "py_error + string"

text \<open>
  The confidence is a float: \<open>float('-inf')\<close> is the sentinel the span search starts from,
  every other value is a finite real.
\<close>

datatype score = NegInf | Fin real

text \<open>
  The answer dictionary. \<open>source_documents\<close> is the entry app.query_document looks for;
  \<open>None\<close> is the dictionary without that key.
\<close>

record qa_result =
  answer :: string
  confidence :: score
  has_answer :: bool
  source_documents :: "document list option"

definition no_context_result :: qa_result where
  "no_context_result =
     \<lparr>answer = ''No context provided to answer the question.'', confidence = Fin 0,
      has_answer = False, source_documents = None\<rparr>"

definition not_found_result :: qa_result where
  "not_found_result =
     \<lparr>answer = ''I couldn't find an answer to your question in the provided documents.'',
      confidence = Fin 0, has_answer = False, source_documents = None\<rparr>"

definition no_documents_result :: qa_result where
  "no_documents_result =
     \<lparr>answer = ''No relevant documents found to answer your question.'', confidence = Fin 0,
      has_answer = False, source_documents = None\<rparr>"

definition answer_error_result :: "py_error \<Rightarrow> qa_result" where
  "answer_error_result e =
     \<lparr>answer = ''Error processing your question: '' @ str_of_error e, confidence = Fin 0,
      has_answer = False, source_documents = None\<rparr>"

subsection \<open>answer_question: splitting the context (lines 108 to 148)\<close>

text \<open>
  One iteration of the loop over \<open>context.split('\n')\<close>; the state is
  \<open>(context_chunks, current_chunk, current_length)\<close>.
\<close>

definition paragraph_step ::
  "qa_env \<Rightarrow> int \<Rightarrow> string \<Rightarrow> string list \<times> string \<times> int \<Rightarrow> py_error + string list \<times> string \<times> int" where
  "paragraph_step env max_context_tokens paragraph st =
     (case st of (context_chunks, current_chunk, current_length) \<Rightarrow>
       if strip paragraph = [] then Inr (context_chunks, current_chunk, current_length)
       else
         bind_err (tok_encode env paragraph) (\<lambda>paragraph_tokens.
           if current_length + int (length paragraph_tokens) > max_context_tokens \<and> current_chunk \<noteq> []
           then Inr (context_chunks @ [current_chunk], paragraph, int (length paragraph_tokens))
           else Inr (context_chunks,
                     (if current_chunk \<noteq> [] then current_chunk @ [CHR 0x0A] @ paragraph else paragraph),
                     current_length + int (length paragraph_tokens))))"

fun split_paragraphs ::
  "qa_env \<Rightarrow> int \<Rightarrow> string list \<Rightarrow> string list \<times> string \<times> int \<Rightarrow> py_error + string list \<times> string \<times> int" where
  "split_paragraphs env max_context_tokens [] st = Inr st"
| "split_paragraphs env max_context_tokens (paragraph # rest) st =
     (case paragraph_step env max_context_tokens paragraph st of
        Inl e \<Rightarrow> Inl e
      | Inr st' \<Rightarrow> split_paragraphs env max_context_tokens rest st')"

text \<open>\<open>f\<close> applied to each element in order, stopping at the first exception.\<close>

fun map_err :: "('a \<Rightarrow> py_error + 'b) \<Rightarrow> 'a list \<Rightarrow> py_error + 'b list" where
  "map_err f [] = Inr []"
| "map_err f (x # xs) =
     (case f x of
        Inl e \<Rightarrow> Inl e
      | Inr y \<Rightarrow> (case map_err f xs of Inl e \<Rightarrow> Inl e | Inr ys \<Rightarrow> Inr (y # ys)))"

text \<open>\<open>[tokens[i:i + n] for i in range(0, len(tokens), n)]\<close> for a positive step \<open>n\<close>.\<close>

function token_windows :: "nat \<Rightarrow> 'a list \<Rightarrow> 'a list list" where
  "token_windows n tokens =
     (if n = 0 \<or> tokens = [] then [] else take n tokens # token_windows n (drop n tokens))"
  by pat_completeness auto
termination
  by (relation "measure (\<lambda>(n, tokens). length tokens)") auto

text \<open>
  The fallback of lines 143 to 148. \<open>range(0, len(context_tokens), max_context_tokens)\<close> raises
  \<open>ValueError\<close> for a zero step and is empty for a negative one.
\<close>

definition token_split :: "qa_env \<Rightarrow> int \<Rightarrow> string \<Rightarrow> py_error + string list" where
  "token_split env max_context_tokens context =
     bind_err (tok_encode env context) (\<lambda>context_tokens.
       if max_context_tokens = 0 then Inl (ValueError ''range() arg 3 must not be zero'')
       else if max_context_tokens < 0 then Inr []
       else map_err (tok_decode env False) (token_windows (nat max_context_tokens) context_tokens))"

text \<open>\<open>max_length - len(question_tokens) - 3\<close> with \<open>max_length = 512\<close>.\<close>

definition max_context_tokens_of :: "token list \<Rightarrow> int" where
  "max_context_tokens_of question_tokens = 512 - int (length question_tokens) - 3"

text \<open>Lines 111 to 148: the list \<open>context_chunks\<close> the scoring loop runs over.\<close>

definition split_context :: "qa_env \<Rightarrow> string \<Rightarrow> string \<Rightarrow> py_error + string list" where
  "split_context env question context =
     bind_err (tok_encode env question) (\<lambda>question_tokens.
       let max_context_tokens = max_context_tokens_of question_tokens in
       bind_err (split_paragraphs env max_context_tokens (split_nl context) ([], [], 0)) (\<lambda>st.
         case st of (context_chunks0, current_chunk, current_length) \<Rightarrow>
           let context_chunks =
                 (if current_chunk \<noteq> [] then context_chunks0 @ [current_chunk] else context_chunks0)
           in if context_chunks = [] then token_split env max_context_tokens context
              else Inr context_chunks))"

subsection \<open>answer_question: scoring the chunks (lines 152 to 204)\<close>

text \<open>\<open>confidence > best_confidence\<close>, where \<open>best_confidence\<close> starts at \<open>float('-inf')\<close>.\<close>

definition score_gt :: "real \<Rightarrow> score \<Rightarrow> bool" where
  "score_gt c b = (case b of NegInf \<Rightarrow> True | Fin x \<Rightarrow> x < c)"

text \<open>
  The body of the inner loop (lines 186 to 204) for one pair \<open>(start_idx, end_idx)\<close>; the
  state is \<open>(best_answer, best_confidence)\<close>.
\<close>

definition span_step ::
  "qa_env \<Rightarrow> int \<Rightarrow> token list \<Rightarrow> real list \<Rightarrow> real list \<Rightarrow> nat \<Rightarrow> nat \<Rightarrow> string \<times> score
     \<Rightarrow> py_error + string \<times> score" where
  "span_step env max_answer_length input_ids start_logits end_logits start_idx end_idx best =
     (if end_idx < start_idx \<or> int end_idx - int start_idx + 1 > max_answer_length then Inr best
      else
        bind_err (item start_logits start_idx) (\<lambda>s.
        bind_err (item end_logits end_idx) (\<lambda>e.
          let confidence = s + e in
          bind_err (tok_decode env True (slice input_ids start_idx (end_idx + 1))) (\<lambda>answer_text.
            if strip answer_text = [] then Inr best
            else if score_gt confidence (snd best) then Inr (answer_text, Fin confidence)
            else Inr best))))"

fun scan_ends ::
  "qa_env \<Rightarrow> int \<Rightarrow> token list \<Rightarrow> real list \<Rightarrow> real list \<Rightarrow> nat \<Rightarrow> nat list \<Rightarrow> string \<times> score
     \<Rightarrow> py_error + string \<times> score" where
  "scan_ends env max_answer_length input_ids start_logits end_logits start_idx [] best = Inr best"
| "scan_ends env max_answer_length input_ids start_logits end_logits start_idx (end_idx # rest) best =
     (case span_step env max_answer_length input_ids start_logits end_logits start_idx end_idx best of
        Inl e \<Rightarrow> Inl e
      | Inr best' \<Rightarrow>
          scan_ends env max_answer_length input_ids start_logits end_logits start_idx rest best')"

fun scan_starts ::
  "qa_env \<Rightarrow> int \<Rightarrow> token list \<Rightarrow> real list \<Rightarrow> real list \<Rightarrow> nat list \<Rightarrow> nat list \<Rightarrow> string \<times> score
     \<Rightarrow> py_error + string \<times> score" where
  "scan_starts env max_answer_length input_ids start_logits end_logits [] end_indexes best = Inr best"
| "scan_starts env max_answer_length input_ids start_logits end_logits (start_idx # rest) end_indexes best =
     (case scan_ends env max_answer_length input_ids start_logits end_logits start_idx end_indexes best of
        Inl e \<Rightarrow> Inl e
      | Inr best' \<Rightarrow>
          scan_starts env max_answer_length input_ids start_logits end_logits rest end_indexes best')"

text \<open>The body of the loop over the chunks (lines 156 to 204).\<close>

definition chunk_step ::
  "qa_env \<Rightarrow> string \<Rightarrow> int \<Rightarrow> string \<Rightarrow> string \<times> score \<Rightarrow> py_error + string \<times> score" where
  "chunk_step env question max_answer_length chunk best =
     bind_err (tok_pair env question chunk 512) (\<lambda>input_ids.
     bind_err (model_forward env input_ids) (\<lambda>logits.
     bind_err (topk (fst logits) 10) (\<lambda>start_indexes.
     bind_err (topk (snd logits) 10) (\<lambda>end_indexes.
       scan_starts env max_answer_length input_ids (fst logits) (snd logits)
         start_indexes end_indexes best))))"

fun scan_chunks ::
  "qa_env \<Rightarrow> string \<Rightarrow> int \<Rightarrow> string list \<Rightarrow> string \<times> score \<Rightarrow> py_error + string \<times> score" where
  "scan_chunks env question max_answer_length [] best = Inr best"
| "scan_chunks env question max_answer_length (chunk # rest) best =
     (case chunk_step env question max_answer_length chunk best of
        Inl e \<Rightarrow> Inl e
      | Inr best' \<Rightarrow> scan_chunks env question max_answer_length rest best')"

subsection \<open>answer_question\<close>

text \<open>The guard of line 100: \<open>not context or len(context.strip()) < 5\<close>.\<close>

definition too_short :: "string \<Rightarrow> bool" where
  "too_short context = (context = [] \<or> length (strip context) < 5)"

text \<open>Lines 206 to 220: the dictionary returned for the final \<open>(best_answer, best_confidence)\<close>.\<close>

definition best_result :: "string \<times> score \<Rightarrow> qa_result" where
  "best_result best =
     (if fst best \<noteq> []
      then \<lparr>answer = fst best, confidence = snd best, has_answer = True, source_documents = None\<rparr>
      else not_found_result)"

text \<open>The body of the \<open>try\<close> block (lines 99 to 220).\<close>

definition answer_body :: "qa_env \<Rightarrow> string \<Rightarrow> string \<Rightarrow> int \<Rightarrow> py_error + qa_result" where
  "answer_body env question context max_answer_length =
     (if too_short context then Inr no_context_result
      else
        bind_err (split_context env question context) (\<lambda>context_chunks.
        bind_err (scan_chunks env question max_answer_length context_chunks ([], NegInf)) (\<lambda>best.
          Inr (best_result best))))"

definition answer_question :: "qa_env \<Rightarrow> string \<Rightarrow> string \<Rightarrow> int \<Rightarrow> qa_result" where
  "answer_question env question context max_answer_length =
     (case answer_body env question context max_answer_length of
        Inr r \<Rightarrow> r
      | Inl e \<Rightarrow> answer_error_result e)"

subsection \<open>EnhancedQAModel.retrieve_documents (lines 49 to 84)\<close>

text \<open>\<open>results.get(key, [[]])[0][i] if results.get(key) else default\<close>.\<close>

definition get_or :: "string \<Rightarrow> 'a field \<Rightarrow> nat \<Rightarrow> 'a \<Rightarrow> py_error + 'a" where
  "get_or key f i dflt =
     (if truthy f then bind_err (first_row key f) (\<lambda>row. item row i) else Inr dflt)"

definition retrieved_at :: "query_result \<Rightarrow> nat \<Rightarrow> string option \<Rightarrow> py_error + retrieved_doc" where
  "retrieved_at results i doc =
     bind_err (get_or ''metadatas'' (res_metadatas results) i []) (\<lambda>md.
     bind_err (get_or ''distances'' (res_distances results) i 0) (\<lambda>dst.
     bind_err (get_or ''ids'' (res_ids results) i (''doc_'' @ str_of_nat i)) (\<lambda>ident.
       Inr \<lparr>rd_text = doc, rd_metadata = md, rd_distance = dst, rd_id = ident\<rparr>)))"

definition qa_retrieve_body :: "collection_query \<Rightarrow> string \<Rightarrow> int \<Rightarrow> py_error + retrieved_doc list" where
  "qa_retrieve_body collection query top_k =
     bind_err (collection query top_k) (\<lambda>results.
     bind_err (first_row ''documents'' (res_documents results)) (\<lambda>docs.
       map_err (\<lambda>p. retrieved_at results (fst p) (snd p)) (enumerate 0 docs)))"

definition qa_retrieve_documents :: "collection_query \<Rightarrow> string \<Rightarrow> int \<Rightarrow> retrieved_doc list \<times> call list" where
  "qa_retrieve_documents collection query top_k =
     ((case qa_retrieve_body collection query top_k of Inr ds \<Rightarrow> ds | Inl e \<Rightarrow> []),
      [StoreQuery query top_k])"

subsection \<open>EnhancedQAModel.process_query (lines 230 to 286)\<close>

definition query_error_result :: "py_error \<Rightarrow> qa_result" where
  "query_error_result e =
     \<lparr>answer = ''Error processing your query: '' @ str_of_error e, confidence = Fin 0,
      has_answer = False, source_documents = None\<rparr>"

text \<open>
  What the loop of lines 260 to 270 appends to \<open>all_text\<close> for one document: nothing for
  an object whose \<open>str\<close> raises, else the \<open>text\<close> entry (which may be \<open>None\<close>), the string
  itself or \<open>str(doc)\<close>.
\<close>

fun appended_text :: "document \<Rightarrow> string option option" where
  "appended_text (DocDict d) = Some (rd_text d)"
| "appended_text (DocStr s) = Some (Some s)"
| "appended_text (DocOther (Inr s)) = Some (Some s)"
| "appended_text (DocOther (Inl e)) = None"

text \<open>\<open>sep.join(parts)\<close> raises \<open>TypeError\<close> when a part is not a string.\<close>

definition join_err :: "string \<Rightarrow> string option list \<Rightarrow> py_error + string" where
  "join_err sep parts =
     (if None \<in> set parts
      then Inl (TypeError ''sequence item: expected str instance, NoneType found'')
      else Inr (join sep (map the parts)))"

text \<open>
  Lines 244 to 247: the documents and the calls made to get them. \<open>provided_docs or []\<close>
  is the empty list for \<open>None\<close>.
\<close>

definition get_documents ::
  "collection_query \<Rightarrow> string \<Rightarrow> bool \<Rightarrow> document list option \<Rightarrow> document list \<times> call list" where
  "get_documents collection query use_retrieved_docs provided_docs =
     (if use_retrieved_docs
      then (map DocDict (fst (qa_retrieve_documents collection query 5)),
            snd (qa_retrieve_documents collection query 5))
      else ((case provided_docs of None \<Rightarrow> [] | Some ds \<Rightarrow> ds), []))"

text \<open>
  The \<open>try\<close> block from line 249 on, for the documents of lines 244 to 247: the result or
  the exception, with the calls made. retrieve_documents and answer_question catch their
  own exceptions; joining the texts is the step that can raise.
\<close>

definition answer_from :: "qa_env \<Rightarrow> string \<Rightarrow> document list \<Rightarrow> (py_error + qa_result) \<times> call list" where
  "answer_from env query documents =
     (if documents = [] then (Inr no_documents_result, [])
      else
        (case join_err [CHR 0x0A, CHR 0x0A] (List.map_filter appended_text documents) of
           Inl e \<Rightarrow> (Inl e, [])
         | Inr combined_text \<Rightarrow>
             (Inr (answer_question env query combined_text 100),
              [SpanExtractor query combined_text])))"

text \<open>The result is paired with the calls made, in order.\<close>

definition process_query ::
  "qa_env \<Rightarrow> collection_query \<Rightarrow> string \<Rightarrow> bool \<Rightarrow> document list option \<Rightarrow> qa_result \<times> call list" where
  "process_query env collection query use_retrieved_docs provided_docs =
     (case get_documents collection query use_retrieved_docs provided_docs of
        (documents, calls) \<Rightarrow>
          (case answer_from env query documents of
             (Inr result, calls') \<Rightarrow> (result, calls @ calls')
           | (Inl e, calls') \<Rightarrow> (query_error_result e, calls @ calls')))"

section \<open>app.query_document (lines 313 to 361)\<close>

text \<open>
  The JSON answers of the endpoint: the normal one, the two of the except branches (the
  message and the \<open>error\<close> entry) and the 400 for a request without \<open>query\<close>.
\<close>

datatype query_response =
    Answered (response_text: string) (response_confidence: score) (response_has_answer: bool)
             (sources: "string list")
  | Failed string string
  | BadRequest string

text \<open>Lines 333 to 338: the sources read from the \<open>source_documents\<close> entry of the result.\<close>

fun source_of :: "document \<Rightarrow> string option" where
  "source_of (DocDict d) = map_of (rd_metadata d) ''source''"
| "source_of (DocStr s) = None"
| "source_of (DocOther r) = None"

definition source_docs_of :: "qa_result \<Rightarrow> string list" where
  "source_docs_of result =
     (case source_documents result of
        None \<Rightarrow> []
      | Some docs \<Rightarrow> List.map_filter source_of docs)"

text \<open>
  \<open>init\<close> is the construction of \<open>EnhancedQAModel\<close>, which raises or gives the model (its
  tokenizer, network and collection); the request carries the query or not.
\<close>

definition query_document ::
  "py_error + qa_env \<times> collection_query \<Rightarrow> string option \<Rightarrow> query_response" where
  "query_document init request_query =
     (case request_query of
        None \<Rightarrow> BadRequest ''No query provided''
      | Some query \<Rightarrow>
          (case init of
             Inl model_error \<Rightarrow>
               Failed (''Error processing your query: '' @ str_of_error model_error)
                      (str_of_error model_error)
           | Inr qa_model \<Rightarrow>
               let result = fst (process_query (fst qa_model) (snd qa_model) query True None)
               in Answered (answer result) (confidence result) (has_answer result)
                    (source_docs_of result)))"

section \<open>document_embedding.upsert_embeddings\<close>

text \<open>
  The collection holds chunks \<open>(id, text, metadata)\<close>. \<open>collection.add\<close> is a parameter:
  given the collection, the documents, the metadatas and the ids, it raises or returns the
  collection after the call.
\<close>

type_synonym chunk = "string \<times> string \<times> metadata"

type_synonym collection_add =
  "chunk list \<Rightarrow> string list \<Rightarrow> metadata list \<Rightarrow> string list \<Rightarrow> py_error + chunk list"

definition generated_ids :: "nat \<Rightarrow> string list" where
  "generated_ids n = map (\<lambda>i. ''doc_'' @ str_of_nat i) [0..<n]"

definition upsert_embeddings ::
  "collection_add \<Rightarrow> chunk list \<Rightarrow> string list \<Rightarrow> metadata list option \<Rightarrow> string list option
     \<Rightarrow> bool \<times> chunk list" where
  "upsert_embeddings add collection texts metadatas ids =
     (if texts = [] then (False, collection)
      else
        let ids' = (case ids of None \<Rightarrow> generated_ids (length texts)
                    | Some given \<Rightarrow> (if given = [] then generated_ids (length texts) else given));
            metadatas' = (case metadatas of None \<Rightarrow> replicate (length texts) [(''source'', ''unknown'')]
                          | Some given \<Rightarrow> (if given = [] then replicate (length texts) [(''source'', ''unknown'')]
                                            else given))
        in (case add collection texts metadatas' ids' of
              Inr collection' \<Rightarrow> (True, collection')
            | Inl e \<Rightarrow> (False, collection)))"

text \<open>
  The index library is not part of the repository. Its \<open>add\<close> is modelled after the library's
  documented contract: the arguments have equal lengths and distinct ids, and a chunk whose
  id is already stored is never overwritten: older releases reject the call
  (\<open>RejectExisting\<close>), newer ones skip that chunk (\<open>SkipExisting\<close>). Overwriting is what the
  library's separate \<open>upsert\<close> does.
\<close>

datatype existing_id_policy = RejectExisting | SkipExisting

definition stored_ids :: "chunk list \<Rightarrow> string set" where
  "stored_ids collection = fst ` set collection"

definition chroma_add :: "existing_id_policy \<Rightarrow> collection_add" where
  "chroma_add policy collection documents metadatas ids =
     (if \<not> (length documents = length ids \<and> length metadatas = length ids)
      then Inl (ValueError ''Unequal lengths'')
      else if \<not> distinct ids then Inl (ValueError ''Expected IDs to be unique'')
      else if policy = RejectExisting \<and> set ids \<inter> stored_ids collection \<noteq> {}
      then Inl (ValueError ''ID already exists'')
      else Inr (collection @
                filter (\<lambda>c. fst c \<notin> stored_ids collection) (zip ids (zip documents metadatas))))"

definition chroma_upsert :: collection_add where
  "chroma_upsert collection documents metadatas ids =
     (if \<not> (length documents = length ids \<and> length metadatas = length ids)
      then Inl (ValueError ''Unequal lengths'')
      else if \<not> distinct ids then Inl (ValueError ''Expected IDs to be unique'')
      else Inr (filter (\<lambda>c. fst c \<notin> set ids) collection @ zip ids (zip documents metadatas)))"

text \<open>\<open>collection.get(ids=[doc_id])\<close>: the chunks stored under an id.\<close>

definition stored_under :: "chunk list \<Rightarrow> string \<Rightarrow> chunk list" where
  "stored_under collection ident = filter (\<lambda>c. fst c = ident) collection"

section \<open>Concrete collaborators for the examples\<close>

text \<open>A store and a scoring environment whose every call raises.\<close>

definition failing_store :: collection_query where
  "failing_store query n_results = Inl (CollaboratorError ''index unavailable'')"

definition failing_env :: qa_env where
  "failing_env =
     \<lparr>tok_encode = (\<lambda>text. Inl (CollaboratorError ''tokenizer unavailable'')),
      tok_decode = (\<lambda>skip tokens. Inl (CollaboratorError ''tokenizer unavailable'')),
      tok_pair = (\<lambda>question chunk max_length. Inl (CollaboratorError ''tokenizer unavailable'')),
      model_forward = (\<lambda>input_ids. Inl (CollaboratorError ''model unavailable''))\<rparr>"

text \<open>A store whose only chunk was stored without a document text.\<close>

definition textless_store :: collection_query where
  "textless_store query n_results =
     Inr \<lparr>res_ids = Present [[''doc_a'']], res_documents = Present [[None]],
          res_metadatas = Present [[[(''source'', ''scan.pdf'')]]], res_distances = Present [[1/10]]\<rparr>"

text \<open>The empty store: a query returns one row without entries.\<close>

definition empty_store :: collection_query where
  "empty_store query n_results =
     Inr \<lparr>res_ids = Present [[]], res_documents = Present [[]],
          res_metadatas = Present [[]], res_distances = Present [[]]\<rparr>"

text \<open>
  A mock tokenizer and model. One token per character (its code); token 0 is the padding
  that \<open>skip_special_tokens\<close> removes. The pair encoding is the chunk alone, truncated to
  \<open>max_length\<close> and padded to ten tokens only, to keep the examples small. The model puts
  its start scores on opening brackets and its end scores on closing ones, a brace scoring
  higher than a square bracket.
\<close>

definition mock_env :: qa_env where
  "mock_env =
     \<lparr>tok_encode = (\<lambda>text. Inr (map of_char text)),
      tok_decode = (\<lambda>skip tokens.
         Inr (map char_of (if skip then filter (\<lambda>t. t \<noteq> 0) tokens else tokens))),
      tok_pair = (\<lambda>question chunk max_length.
         Inr (take max_length (map of_char chunk @ replicate (10 - length chunk) 0))),
      model_forward = (\<lambda>input_ids.
         Inr (map (\<lambda>t. if t = 91 then 5 else if t = 123 then 7 else 0) input_ids,
              map (\<lambda>t. if t = 93 then 4 else if t = 125 then 6 else 0) input_ids))\<rparr>"

section \<open>The span search, as the specification describes it\<close>

text \<open>The values present in a list of optional values, in order.\<close>

fun somes :: "'a option list \<Rightarrow> 'a list" where
  "somes [] = []"
| "somes (None # xs) = somes xs"
| "somes (Some x # xs) = x # somes xs"

text \<open>
  The candidate of a pair of positions: nothing when the span is invalid (end before
  start, or longer than \<open>max_answer_length\<close>) or decodes to an empty or blank text, else the
  decoded text with the sum of the start and end scores.
\<close>

definition span_candidate ::
  "qa_env \<Rightarrow> int \<Rightarrow> token list \<Rightarrow> real list \<Rightarrow> real list \<Rightarrow> nat \<times> nat
     \<Rightarrow> py_error + (string \<times> real) option" where
  "span_candidate env max_answer_length input_ids start_logits end_logits p =
     (if snd p < fst p \<or> int (snd p) - int (fst p) + 1 > max_answer_length then Inr None
      else
        bind_err (item start_logits (fst p)) (\<lambda>s.
        bind_err (item end_logits (snd p)) (\<lambda>e.
        bind_err (tok_decode env True (slice input_ids (fst p) (snd p + 1))) (\<lambda>answer_text.
          Inr (if strip answer_text = [] then None else Some (answer_text, s + e))))))"

text \<open>The candidates of all pairs of top start and top end positions.\<close>

definition pair_candidates ::
  "qa_env \<Rightarrow> int \<Rightarrow> token list \<Rightarrow> real list \<Rightarrow> real list \<Rightarrow> (nat \<times> nat) list
     \<Rightarrow> py_error + (string \<times> real) list" where
  "pair_candidates env max_answer_length input_ids start_logits end_logits pairs =
     bind_err (map_err (span_candidate env max_answer_length input_ids start_logits end_logits) pairs)
       (\<lambda>cs. Inr (somes cs))"

definition chunk_candidates ::
  "qa_env \<Rightarrow> string \<Rightarrow> int \<Rightarrow> string \<Rightarrow> py_error + (string \<times> real) list" where
  "chunk_candidates env question max_answer_length chunk =
     bind_err (tok_pair env question chunk 512) (\<lambda>input_ids.
     bind_err (model_forward env input_ids) (\<lambda>logits.
     bind_err (topk (fst logits) 10) (\<lambda>start_indexes.
     bind_err (topk (snd logits) 10) (\<lambda>end_indexes.
       pair_candidates env max_answer_length input_ids (fst logits) (snd logits)
         (List.product start_indexes end_indexes)))))"

text \<open>The valid candidate spans of all chunks of the context.\<close>

definition all_candidates ::
  "qa_env \<Rightarrow> string \<Rightarrow> string \<Rightarrow> int \<Rightarrow> py_error + (string \<times> real) list" where
  "all_candidates env question context max_answer_length =
     bind_err (split_context env question context) (\<lambda>context_chunks.
     bind_err (map_err (chunk_candidates env question max_answer_length) context_chunks) (\<lambda>css.
       Inr (concat css)))"

text \<open>The update of lines 202 to 204 on a candidate, and the invariant of the search.\<close>

definition better :: "string \<times> score \<Rightarrow> string \<times> real \<Rightarrow> string \<times> score" where
  "better best cand = (if score_gt (snd cand) (snd best) then (fst cand, Fin (snd cand)) else best)"

definition best_ok :: "string \<times> score \<Rightarrow> bool" where
  "best_ok best = (fst best \<noteq> [] \<longrightarrow> snd best \<noteq> NegInf)"

text \<open>The mock with a model that raises, and the mock with a decoder that raises.\<close>

definition model_failing_env :: qa_env where
  "model_failing_env =
     mock_env\<lparr>model_forward := (\<lambda>input_ids. Inl (CollaboratorError ''model unavailable''))\<rparr>"

definition decode_failing_env :: qa_env where
  "decode_failing_env =
     mock_env\<lparr>tok_decode := (\<lambda>skip tokens. Inl (CollaboratorError ''decoder unavailable''))\<rparr>"

text \<open>The paragraphs of a context that the splitting loop does not skip.\<close>

definition paragraphs_of :: "string \<Rightarrow> string list" where
  "paragraphs_of context = filter (\<lambda>p. strip p \<noteq> []) (split_nl context)"

text \<open>
  A question of 500 tokens, which leaves a budget of 9, and a context of two paragraphs
  that do not fit that budget together.
\<close>

definition long_question :: string where
  "long_question = replicate 500 (CHR ''q'')"

definition two_paragraphs :: string where
  "two_paragraphs = ''[weak]'' @ [CHR 0x0A] @ ''{strong}''"

text \<open>A context of one paragraph of 600 tokens.\<close>

definition long_paragraph :: string where
  "long_paragraph = replicate 600 (CHR ''a'')"

text \<open>The length of each chunk, counted in tokens by the tokenizer.\<close>

definition chunk_token_counts :: "qa_env \<Rightarrow> string list \<Rightarrow> py_error + nat list" where
  "chunk_token_counts env chunks =
     map_err (\<lambda>chunk. bind_err (tok_encode env chunk) (\<lambda>tokens. Inr (length tokens))) chunks"

section \<open>Auxiliary facts\<close>

lemma bind_err_simps [simp]:
  "bind_err (Inl e) f = Inl e" "bind_err (Inr x) f = f x"
  by (simp_all add: bind_err_def)

lemma bind_err_Inr_iff:
  "bind_err m f = Inr y \<longleftrightarrow> (\<exists>x. m = Inr x \<and> f x = Inr y)"
  by (cases m) simp_all

lemma bind_err_assoc:
  "bind_err (bind_err m g) k = bind_err m (\<lambda>x. bind_err (g x) k)"
  by (cases m) simp_all

section \<open>Properties of retrieve_documents\<close>

lemma distance_at_present:
  "res_distances results = Present (dists # rest) \<Longrightarrow> i < length dists
     \<Longrightarrow> distance_at results i = Inr (Some (dists ! i))"
  by (simp add: distance_at_def first_row_def)

lemma match_step_present:
  assumes "res_distances results = Present (dists # rest)" and "i < length dists"
  shows "match_step results thr i ident =
     (if 1 - dists ! i < thr then Inr None
      else
        bind_err (first_row ''documents'' (res_documents results)) (\<lambda>docs.
        bind_err (item docs i) (\<lambda>doc_text0.
          case (case map_of (metadata_at results i) ''text'' of
                  Some t \<Rightarrow> (if falsy_text doc_text0 then Some t else doc_text0)
                | None \<Rightarrow> doc_text0) of
            None \<Rightarrow> Inl (TypeError ''NoneType object is not subscriptable'')
          | Some body \<Rightarrow>
              Inr (Some \<lparr>match_id = ident, match_text = body, match_metadata = metadata_at results i,
                            similarity = 1 - dists ! i, raw_distance = Some (dists ! i)\<rparr>))))"
  by (simp add: match_step_def distance_at_present[OF assms] Let_def)

lemma match_step_kept:
  assumes "match_step results thr i ident = Inr (Some m)"
    and "res_distances results = Present (dists # rest)" and "i < length dists"
  shows "thr \<le> 1 - dists ! i \<and> drawn_from dists m (i, ident)"
proof (cases "1 - dists ! i < thr")
  case True
  with assms show ?thesis by (simp add: match_step_present)
next
  case False
  with assms(1) have "\<exists>body. m = \<lparr>match_id = ident, match_text = body, match_metadata = metadata_at results i,
          similarity = 1 - dists ! i, raw_distance = Some (dists ! i)\<rparr>"
    by (auto simp: match_step_present[OF assms(2,3)] bind_err_Inr_iff split: option.splits)
  with False show ?thesis by (auto simp: drawn_from_def)
qed

lemma match_step_dropped:
  assumes "match_step results thr i ident = Inr None"
    and "res_distances results = Present (dists # rest)" and "i < length dists"
  shows "\<not> thr \<le> 1 - dists ! i"
proof (cases "1 - dists ! i < thr")
  case True
  then show ?thesis by simp
next
  case False
  with assms(1) have False
    by (auto simp: match_step_present[OF assms(2,3)] bind_err_Inr_iff split: option.splits)
  then show ?thesis ..
qed

lemma collect_matches_positions:
  assumes "collect_matches results thr (enumerate k xs) ms = Inr out"
    and "res_distances results = Present (dists # rest)" and "k + length xs \<le> length dists"
  shows "\<exists>new. out = ms @ new \<and>
           list_all2 (drawn_from dists) new
             (filter (\<lambda>p. thr \<le> 1 - dists ! fst p) (enumerate k xs))"
  using assms(1,3)
proof (induction xs arbitrary: k ms)
  case Nil
  then show ?case by simp
next
  case (Cons x xs)
  have k: "k < length dists" and rest: "Suc k + length xs \<le> length dists"
    using Cons.prems(2) by simp_all
  show ?case
  proof (cases "match_step results thr k x")
    case (Inl e)
    with Cons.prems(1) show ?thesis by simp
  next
    case (Inr r)
    show ?thesis
    proof (cases r)
      case None
      with Inr Cons.prems(1) have c: "collect_matches results thr (enumerate (Suc k) xs) ms = Inr out"
        by simp
      from Inr None have "\<not> thr \<le> 1 - dists ! k"
        using match_step_dropped[OF _ assms(2) k] by simp
      with Cons.IH[OF c rest] show ?thesis by simp
    next
      case (Some m)
      with Inr Cons.prems(1)
      have c: "collect_matches results thr (enumerate (Suc k) xs) (ms @ [m]) = Inr out"
        by simp
      from Inr Some have d: "thr \<le> 1 - dists ! k" "drawn_from dists m (k, x)"
        using match_step_kept[OF _ assms(2) k] by simp_all
      from Cons.IH[OF c rest] obtain new where
        n: "out = (ms @ [m]) @ new"
           "list_all2 (drawn_from dists) new
              (filter (\<lambda>p. thr \<le> 1 - dists ! fst p) (enumerate (Suc k) xs))"
        by blast
      have "out = ms @ (m # new)" using n(1) by simp
      moreover have "list_all2 (drawn_from dists) (m # new)
              (filter (\<lambda>p. thr \<le> 1 - dists ! fst p) (enumerate k (x # xs)))"
        using n(2) d by simp
      ultimately show ?thesis by blast
    qed
  qed
qed

lemma insort_key_cong_set:
  "f x = h x \<Longrightarrow> (\<forall>y \<in> set xs. f y = h y) \<Longrightarrow> insort_key f x xs = insort_key h x xs"
  by (induction xs) auto

lemma sort_key_cong_set:
  "(\<forall>y \<in> set xs. f y = h y) \<Longrightarrow> sort_key f xs = sort_key h xs"
proof (induction xs)
  case Nil
  show ?case by simp
next
  case (Cons x xs)
  then have "sort_key f xs = sort_key h xs" by simp
  moreover have "insort_key f x (sort_key h xs) = insort_key h x (sort_key h xs)"
    using Cons.prems by (intro insort_key_cong_set) simp_all
  ultimately show ?case by (simp add: sort_key_def)
qed

lemma insort_key_map_commute:
  "insort_key f (g x) (map g xs) = map g (insort_key (\<lambda>y. f (g y)) x xs)"
  by (induction xs) auto

lemma sort_key_map_commute:
  "sort_key f (map g xs) = map g (sort_key (\<lambda>y. f (g y)) xs)"
  by (induction xs) (simp_all add: sort_key_def insort_key_map_commute)

lemma sorted_wrt_ties:
  assumes "sorted (map k xs)" and "\<And>c. sorted_wrt (<) (filter (\<lambda>y. k y = c) xs)"
  shows "sorted_wrt (\<lambda>i j. k i < k j \<or> (k i = k j \<and> i < j)) (xs :: nat list)"
  using assms
proof (induction xs)
  case Nil
  show ?case by simp
next
  case (Cons x xs)
  have tail: "sorted_wrt (\<lambda>i j. k i < k j \<or> (k i = k j \<and> i < j)) xs"
  proof (rule Cons.IH)
    show "sorted (map k xs)" using Cons.prems(1) by simp
    show "sorted_wrt (<) (filter (\<lambda>y. k y = c) xs)" for c
      using Cons.prems(2)[of c] by (cases "k x = c") simp_all
  qed
  have "k x < k y \<or> (k x = k y \<and> x < y)" if y: "y \<in> set xs" for y
  proof (cases "k x = k y")
    case True
    from Cons.prems(2)[of "k x"] have "\<forall>z \<in> set (filter (\<lambda>y. k y = k x) xs). x < z" by simp
    with y True show ?thesis by simp
  next
    case False
    moreover from Cons.prems(1) y have "k x \<le> k y" by simp
    ultimately show ?thesis by simp
  qed
  with tail show ?case by simp
qed

lemma stable_sort_ties:
  assumes "sorted_wrt (<) (xs :: nat list)"
  shows "sorted_wrt (\<lambda>i j. k i < k j \<or> (k i = k j \<and> i < j)) (sort_key k xs)"
proof (rule sorted_wrt_ties)
  show "sorted (map k (sort_key k xs))" by simp
  show "sorted_wrt (<) (filter (\<lambda>y. k y = c) (sort_key k xs))" for c
    using assms by (simp add: sort_key_stable sorted_wrt_filter)
qed

lemma ranked_positions_order:
  "sorted_wrt (ranks_before dists) (ranked_positions dists n thr)"
proof -
  have "sorted_wrt (<) (filter (\<lambda>i. thr \<le> 1 - dists ! i) [0..<n])"
    by (rule sorted_wrt_filter) (simp add: sorted_wrt_upt)
  from stable_sort_ties[OF this, of "\<lambda>i. - (1 - dists ! i)"]
  have "sorted_wrt (\<lambda>i j. - (1 - dists ! i) < - (1 - dists ! j)
          \<or> (- (1 - dists ! i) = - (1 - dists ! j) \<and> i < j)) (ranked_positions dists n thr)"
    by (simp add: ranked_positions_def)
  then show ?thesis
    by (rule sorted_wrt_mono_rel[rotated]) (auto simp: ranks_before_def)
qed

lemma ranked_positions_set:
  "set (ranked_positions dists n thr) = {i. i < n \<and> thr \<le> 1 - dists ! i}"
  by (auto simp: ranked_positions_def)

lemma ranked_positions_distinct: "distinct (ranked_positions dists n thr)"
  by (simp add: ranked_positions_def distinct_sort)

lemma enumerate_positions:
  "enumerate 0 xs = map (\<lambda>i. (i, xs ! i)) [0..<length xs]"
  by (rule nth_equalityI) (simp_all add: nth_enumerate_eq)

lemma list_all2_same_source:
  "(\<forall>z \<in> set zs. P (f z) (g z)) \<Longrightarrow> list_all2 P (map f zs) (map g zs)"
  by (induction zs) simp_all

lemma sort_matches_positions:
  assumes "list_all2 (drawn_from dists) kept
             (filter (\<lambda>p. thr \<le> 1 - dists ! fst p) (enumerate 0 ids0))"
  shows "list_all2 (drawn_from dists) (sort_matches kept)
           (map (\<lambda>i. (i, ids0 ! i)) (ranked_positions dists (length ids0) thr))"
proof -
  define qs where "qs = filter (\<lambda>p. thr \<le> 1 - dists ! fst p) (enumerate 0 ids0)"
  define zs where "zs = zip kept qs"
  define S where "S = sort_key (\<lambda>z. - (1 - dists ! fst (snd z))) zs"
  from assms have len: "length kept = length qs"
    by (simp add: qs_def list_all2_lengthD)
  have kept: "kept = map fst zs" and qs: "qs = map snd zs"
    using len by (simp_all add: zs_def)
  have drawn: "\<forall>z \<in> set zs. drawn_from dists (fst z) (snd z)"
    using assms unfolding zs_def qs_def[symmetric] by (auto simp: list_all2_iff)
  have "sort_matches kept = map fst (sort_key (\<lambda>z. - similarity (fst z)) zs)"
    by (simp add: sort_matches_def kept sort_key_map_commute)
  also have "sort_key (\<lambda>z. - similarity (fst z)) zs = S"
    unfolding S_def using drawn by (intro sort_key_cong_set) (simp add: drawn_from_def)
  finally have a: "sort_matches kept = map fst S" .
  have "sort_key (\<lambda>p. - (1 - dists ! fst p)) qs = map snd S"
    by (simp add: qs S_def sort_key_map_commute)
  moreover have "qs = map (\<lambda>i. (i, ids0 ! i)) (filter (\<lambda>i. thr \<le> 1 - dists ! i) [0..<length ids0])"
    by (simp add: qs_def enumerate_positions filter_map comp_def)
  ultimately have b: "map (\<lambda>i. (i, ids0 ! i)) (ranked_positions dists (length ids0) thr) = map snd S"
    by (simp add: ranked_positions_def sort_key_map_commute)
  have "\<forall>z \<in> set S. drawn_from dists (fst z) (snd z)"
    using drawn by (simp add: S_def)
  then have "list_all2 (drawn_from dists) (map fst S) (map snd S)"
    by (rule list_all2_same_source)
  with a b show ?thesis by simp
qed

lemma drawn_from_maps:
  assumes "list_all2 (drawn_from dists) ms (map (\<lambda>i. (i, ids0 ! i)) ps)"
  shows "map match_id ms = map (\<lambda>i. ids0 ! i) ps
       \<and> map similarity ms = map (\<lambda>i. 1 - dists ! i) ps
       \<and> map raw_distance ms = map (\<lambda>i. Some (dists ! i)) ps"
  using assms
proof (induction ms arbitrary: ps)
  case Nil
  then show ?case by simp
next
  case (Cons m ms)
  then obtain p ps' where ps: "ps = p # ps'" by (cases ps) auto
  with Cons.prems have h: "drawn_from dists m (p, ids0 ! p)"
    and t: "list_all2 (drawn_from dists) ms (map (\<lambda>i. (i, ids0 ! i)) ps')"
    by simp_all
  from Cons.IH[OF t] h ps show ?case by (simp add: drawn_from_def)
qed


lemma surviving_matches_positions:
  assumes "collection query top_k = Inr results" and "\<not> no_documents results"
    and "res_ids results = Present (ids0 # r1)" and "res_distances results = Present (dists # r2)"
    and "length ids0 \<le> length dists"
    and "surviving_matches collection query top_k thr = Inr kept"
  shows "list_all2 (drawn_from dists) kept
           (filter (\<lambda>p. thr \<le> 1 - dists ! fst p) (enumerate 0 ids0))"
proof -
  from assms(1,2,3,6) have "collect_matches results thr (enumerate 0 ids0) [] = Inr kept"
    by (simp add: surviving_matches_def first_row_def)
  from collect_matches_positions[OF this assms(4)] assms(5) show ?thesis by simp
qed

lemma surviving_matches_cases:
  assumes "store_contract collection query top_k"
    and "surviving_matches collection query top_k thr = Inr kept"
  shows "kept = [] \<or>
    (\<exists>results ids0 r1 dists r2.
        collection query top_k = Inr results \<and> \<not> no_documents results
      \<and> res_ids results = Present (ids0 # r1) \<and> res_distances results = Present (dists # r2)
      \<and> length ids0 \<le> length dists \<and> int (length ids0) \<le> top_k)"
proof (cases "collection query top_k")
  case (Inl e)
  with assms(2) show ?thesis by (simp add: surviving_matches_def)
next
  case (Inr results)
  show ?thesis
  proof (cases "no_documents results")
    case True
    with assms(2) Inr show ?thesis by (simp add: surviving_matches_def)
  next
    case False
    with assms(2) Inr obtain ids0 where "first_row ''ids'' (res_ids results) = Inr ids0"
      by (auto simp: surviving_matches_def bind_err_Inr_iff)
    then obtain r1 where i: "res_ids results = Present (ids0 # r1)"
      by (auto simp: first_row_def split: field.splits list.splits)
    with assms(1) Inr obtain dists r2 where
      "res_distances results = Present (dists # r2)" "length ids0 \<le> length dists"
      "int (length ids0) \<le> top_k"
      by (auto simp: store_contract_def parallel_arrays_within_def split: field.splits list.splits)
    with Inr False i show ?thesis by blast
  qed
qed

lemma surviving_matches_bounds:
  assumes "store_contract collection query top_k" and "0 \<le> top_k"
    and "surviving_matches collection query top_k thr = Inr kept"
  shows "(\<forall>m \<in> set kept. thr \<le> similarity m) \<and> int (length kept) \<le> top_k"
proof -
  from surviving_matches_cases[OF assms(1,3)] consider "kept = []"
    | results ids0 r1 dists r2 where
        "collection query top_k = Inr results" "\<not> no_documents results"
        "res_ids results = Present (ids0 # r1)" "res_distances results = Present (dists # r2)"
        "length ids0 \<le> length dists" "int (length ids0) \<le> top_k"
    by blast
  then show ?thesis
  proof cases
    case 1
    with assms(2) show ?thesis by simp
  next
    case 2
    define qs where "qs = filter (\<lambda>p. thr \<le> 1 - dists ! fst p) (enumerate 0 ids0)"
    from surviving_matches_positions[OF 2(1,2,3,4,5) assms(3)]
    have l: "list_all2 (drawn_from dists) kept qs" by (simp add: qs_def)
    have "thr \<le> similarity m" if "m \<in> set kept" for m
    proof -
      from that obtain j where j: "j < length kept" "m = kept ! j"
        by (auto simp: in_set_conv_nth)
      from l j(1) have "drawn_from dists (kept ! j) (qs ! j)" and "qs ! j \<in> set qs"
        by (simp_all add: list_all2_conv_all_nth)
      with j(2) show ?thesis by (simp add: qs_def drawn_from_def)
    qed
    moreover have "length kept \<le> length ids0"
    proof -
      have "length kept = length qs" using l by (rule list_all2_lengthD)
      also have "\<dots> \<le> length (enumerate 0 ids0)" unfolding qs_def by (rule length_filter_le)
      finally show ?thesis by simp
    qed
    ultimately show ?thesis using 2(6) by auto
  qed
qed


lemma sorted_desc_sort_matches:
  "sorted_wrt (\<lambda>a b. similarity b \<le> similarity a) (sort_matches ms)"
proof -
  have "sorted (map (\<lambda>m. - similarity m) (sort_matches ms))"
    by (simp add: sort_matches_def)
  then show ?thesis
    by (simp add: sorted_wrt_map)
qed

text \<open>
  C1: when the store keeps its contract for the call (at most \<open>top_k\<close> ids, a distance for
  each), then for every query, every \<open>top_k \<ge> 0\<close> and every threshold: each returned match
  has similarity at least the threshold, there are at most \<open>top_k\<close> matches, and they are in
  descending order of similarity. When the call succeeds on a result with documents, the
  matches are the chunks at the positions \<open>ranked_positions\<close> of the store's row, in that
  order, each with the id, the similarity and the distance of its position; and these
  positions are exactly the ones that reach the threshold, each once, a more similar one
  before a less similar one and, of two equally similar ones, the one the store returned
  first before the other.
\<close>

theorem retrieve_documents_threshold_topk_sorted:
  assumes "store_contract collection query top_k" and "0 \<le> top_k"
  shows "(\<forall>m \<in> set (matches (fst (retrieve_documents collection query top_k thr))). thr \<le> similarity m)
       \<and> int (length (matches (fst (retrieve_documents collection query top_k thr)))) \<le> top_k
       \<and> sorted_wrt (\<lambda>a b. similarity b \<le> similarity a)
             (matches (fst (retrieve_documents collection query top_k thr)))
       \<and> (\<forall>results ids0 r1 dists r2.
             query \<noteq> [] \<and> collection query top_k = Inr results \<and> \<not> no_documents results
             \<and> res_ids results = Present (ids0 # r1) \<and> res_distances results = Present (dists # r2)
             \<and> error (fst (retrieve_documents collection query top_k thr)) = None \<longrightarrow>
               map match_id (matches (fst (retrieve_documents collection query top_k thr)))
                 = map (\<lambda>i. ids0 ! i) (ranked_positions dists (length ids0) thr)
             \<and> map similarity (matches (fst (retrieve_documents collection query top_k thr)))
                 = map (\<lambda>i. 1 - dists ! i) (ranked_positions dists (length ids0) thr)
             \<and> map raw_distance (matches (fst (retrieve_documents collection query top_k thr)))
                 = map (\<lambda>i. Some (dists ! i)) (ranked_positions dists (length ids0) thr))
       \<and> sorted_wrt (ranks_before ds) (ranked_positions ds n thr)
       \<and> distinct (ranked_positions ds n thr)
       \<and> set (ranked_positions ds n thr) = {i. i < n \<and> thr \<le> 1 - ds ! i}"
proof -
  let ?R = "fst (retrieve_documents collection query top_k thr)"
  have first: "(\<forall>m \<in> set (matches ?R). thr \<le> similarity m)
       \<and> int (length (matches ?R)) \<le> top_k
       \<and> sorted_wrt (\<lambda>a b. similarity b \<le> similarity a) (matches ?R)"
  proof (cases "query = []")
    case True
    with assms(2) show ?thesis by (simp add: retrieve_documents_def)
  next
    case False
    show ?thesis
    proof (cases "surviving_matches collection query top_k thr")
      case (Inl e)
      with False assms(2) show ?thesis
        by (simp add: retrieve_documents_def retrieve_body_def)
    next
      case (Inr kept)
      with False have m: "matches ?R = sort_matches kept"
        by (simp add: retrieve_documents_def retrieve_body_def)
      from surviving_matches_bounds[OF assms Inr]
      have "\<forall>m \<in> set (sort_matches kept). thr \<le> similarity m"
        and "int (length (sort_matches kept)) \<le> top_k"
        by (simp_all add: sort_matches_def)
      with m sorted_desc_sort_matches[of kept] show ?thesis by simp
    qed
  qed
  have second: "map match_id (matches ?R) = map (\<lambda>i. ids0 ! i) (ranked_positions dists (length ids0) thr)
             \<and> map similarity (matches ?R) = map (\<lambda>i. 1 - dists ! i) (ranked_positions dists (length ids0) thr)
             \<and> map raw_distance (matches ?R) = map (\<lambda>i. Some (dists ! i)) (ranked_positions dists (length ids0) thr)"
    if q: "query \<noteq> []" and c: "collection query top_k = Inr results" and nd: "\<not> no_documents results"
      and i: "res_ids results = Present (ids0 # r1)" and d: "res_distances results = Present (dists # r2)"
      and ok: "error ?R = None"
    for results ids0 r1 dists r2
  proof -
    from q ok obtain kept where k: "surviving_matches collection query top_k thr = Inr kept"
      and m: "matches ?R = sort_matches kept"
      by (cases "surviving_matches collection query top_k thr")
         (simp_all add: retrieve_documents_def retrieve_body_def)
    from assms(1) c i d have len: "length ids0 \<le> length dists"
      by (simp add: store_contract_def parallel_arrays_within_def)
    from surviving_matches_positions[OF c nd i d len k]
    have "list_all2 (drawn_from dists) (sort_matches kept)
            (map (\<lambda>i. (i, ids0 ! i)) (ranked_positions dists (length ids0) thr))"
      by (rule sort_matches_positions)
    from drawn_from_maps[OF this] m show ?thesis by simp
  qed
  from first second ranked_positions_order[of ds n thr] ranked_positions_distinct[of ds n thr]
    ranked_positions_set[of ds n thr]
  show ?thesis by blast
qed

theorem retrieve_documents_threshold_topk_sorted_witness:
  "store_contract tie_store ''what is a contract?'' 5 \<and> (0::int) \<le> 5
   \<and> map match_id (matches (fst (retrieve_documents tie_store ''what is a contract?'' 5 (7/10))))
       = [''second'', ''first'', ''third'']
   \<and> map similarity (matches (fst (retrieve_documents tie_store ''what is a contract?'' 5 (7/10))))
       = [9/10, 8/10, 8/10]
   \<and> ranked_positions [2/10, 1/10, 2/10, 5/10] 4 (7/10) = [1, 0, 2]
   \<and> list_all (\<lambda>m. 7/10 \<le> similarity m)
         (matches (fst (retrieve_documents tie_store ''what is a contract?'' 5 (7/10))))
   \<and> int (length (matches (fst (retrieve_documents tie_store ''what is a contract?'' 5 (7/10))))) \<le> 5
   \<and> sorted_wrt (\<lambda>a b. similarity b \<le> similarity a)
         (matches (fst (retrieve_documents tie_store ''what is a contract?'' 5 (7/10))))
   \<and> map match_id (matches (fst (retrieve_documents tie_store ''what is a contract?'' 5 (7/10))))
       = map (\<lambda>i. [''first'', ''second'', ''third'', ''fourth''] ! i)
           (ranked_positions [2/10, 1/10, 2/10, 5/10] 4 (7/10))
   \<and> sorted_wrt (ranks_before [2/10, 1/10, 2/10, 5/10])
         (ranked_positions [2/10, 1/10, 2/10, 5/10] 4 (7/10))"
proof -
  let ?R = "fst (retrieve_documents tie_store ''what is a contract?'' 5 (7/10))"
  have c: "store_contract tie_store ''what is a contract?'' 5"
    by (simp add: store_contract_def tie_store_def tie_result_def parallel_arrays_within_def)
  have z: "(0::int) \<le> 5" by simp
  have e1: "map match_id (matches ?R) = [''second'', ''first'', ''third'']"
    by code_simp
  have e2: "map similarity (matches ?R) = [9/10, 8/10, 8/10]"
    by code_simp
  have e3: "ranked_positions [2/10, 1/10, 2/10, 5/10] 4 (7/10) = [1, 0, 2]"
    by code_simp
  have ok: "error ?R = None"
    by code_simp
  have h: "''what is a contract?'' \<noteq> [] \<and> tie_store ''what is a contract?'' 5 = Inr tie_result
        \<and> \<not> no_documents tie_result
        \<and> res_ids tie_result = Present ([''first'', ''second'', ''third'', ''fourth''] # [])
        \<and> res_distances tie_result = Present ([2/10, 1/10, 2/10, 5/10] # [])"
    by (simp add: tie_store_def tie_result_def no_documents_def)
  note t = retrieve_documents_threshold_topk_sorted[OF c z, of "7/10" "[2/10, 1/10, 2/10, 5/10]" 4]
  from t have a: "list_all (\<lambda>m. 7/10 \<le> similarity m) (matches ?R)"
    unfolding list_all_iff by blast
  from t have b: "int (length (matches ?R)) \<le> 5
      \<and> sorted_wrt (\<lambda>a b. similarity b \<le> similarity a) (matches ?R)
      \<and> sorted_wrt (ranks_before [2/10, 1/10, 2/10, 5/10])
           (ranked_positions [2/10, 1/10, 2/10, 5/10] 4 (7/10))"
    by blast
  from t have "\<forall>results ids0 r1 dists r2.
             ''what is a contract?'' \<noteq> [] \<and> tie_store ''what is a contract?'' 5 = Inr results
             \<and> \<not> no_documents results
             \<and> res_ids results = Present (ids0 # r1) \<and> res_distances results = Present (dists # r2)
             \<and> error ?R = None \<longrightarrow>
               map match_id (matches ?R) = map (\<lambda>i. ids0 ! i) (ranked_positions dists (length ids0) (7/10))"
    by blast
  from this[rule_format, of tie_result "[''first'', ''second'', ''third'', ''fourth'']" "[]"
      "[2/10, 1/10, 2/10, 5/10]" "[]"] h ok
  have d: "map match_id (matches ?R)
       = map (\<lambda>i. [''first'', ''second'', ''third'', ''fourth''] ! i)
           (ranked_positions [2/10, 1/10, 2/10, 5/10] 4 (7/10))"
    by (simp add: eval_nat_numeral)
  from c z e1 e2 e3 a b d show ?thesis by blast
qed

text \<open>
  C8: for the empty query string, retrieve_documents returns an empty match list (and no
  error marker) and makes no call to the chunk store, whatever the store would answer.
\<close>

theorem retrieve_documents_empty_query:
  "retrieve_documents collection [] top_k similarity_threshold = (\<lparr>matches = [], error = None\<rparr>, [])"
  by (simp add: retrieve_documents_def)

section \<open>Properties of answer_question and process_query\<close>

lemma length_strip_le: "length (strip s) \<le> length s"
proof -
  have "length (strip s) = length (dropWhile is_space (rev (dropWhile is_space s)))"
    by (simp add: strip_def)
  also have "\<dots> \<le> length (rev (dropWhile is_space s))"
    by (rule length_dropWhile_le)
  also have "\<dots> \<le> length s"
    by (simp add: length_dropWhile_le)
  finally show ?thesis .
qed

text \<open>
  C7: for every question and every context that is empty or shorter than 5 characters,
  answer_question returns \<open>has_answer = False\<close>, confidence 0.0 and the fixed no-context
  message. The result is the same for every tokenizer and model, also for ones that raise
  on every call: neither the chunking nor the scoring step runs.
\<close>

theorem answer_question_short_context:
  assumes "context = [] \<or> length context < 5"
  shows "answer_question env question context max_answer_length =
           \<lparr>answer = ''No context provided to answer the question.'', confidence = Fin 0,
            has_answer = False, source_documents = None\<rparr>"
proof -
  have "too_short context"
    using assms length_strip_le[of "context"] by (auto simp: too_short_def)
  then show ?thesis
    by (simp add: answer_question_def answer_body_def no_context_result_def)
qed

theorem answer_question_short_context_witness:
  "(''abc'' = [] \<or> length ''abc'' < 5) \<and>
   answer_question failing_env ''what is a contract?'' ''abc'' 100 =
     \<lparr>answer = ''No context provided to answer the question.'', confidence = Fin 0,
      has_answer = False, source_documents = None\<rparr>"
  using answer_question_short_context[of "''abc''" failing_env "''what is a contract?''" 100]
  by simp

text \<open>
  C4: when no documents are available (retrieval returned the empty list, or
  \<open>use_retrieved_docs\<close> is false and \<open>provided_docs\<close> is \<open>None\<close> or empty), process_query
  returns \<open>has_answer = False\<close>, confidence 0.0 and the fixed "no relevant documents"
  message, and the calls it made include no call of the span extractor.
\<close>

theorem process_query_no_documents:
  assumes "(use_retrieved_docs \<and> fst (qa_retrieve_documents collection query 5) = [])
         \<or> (\<not> use_retrieved_docs \<and> (provided_docs = None \<or> provided_docs = Some []))"
  shows "fst (process_query env collection query use_retrieved_docs provided_docs) =
           \<lparr>answer = ''No relevant documents found to answer your question.'', confidence = Fin 0,
            has_answer = False, source_documents = None\<rparr>
       \<and> (\<forall>q c. SpanExtractor q c \<notin> set (snd (process_query env collection query use_retrieved_docs provided_docs)))"
proof -
  have d: "fst (get_documents collection query use_retrieved_docs provided_docs) = []"
    using assms by (auto simp: get_documents_def)
  have c: "snd (get_documents collection query use_retrieved_docs provided_docs) =
             (if use_retrieved_docs then [StoreQuery query 5] else [])"
    by (simp add: get_documents_def qa_retrieve_documents_def)
  obtain ds cs where g: "get_documents collection query use_retrieved_docs provided_docs = (ds, cs)"
    by (cases "get_documents collection query use_retrieved_docs provided_docs")
  with d c have "ds = []" "cs = (if use_retrieved_docs then [StoreQuery query 5] else [])" by auto
  with g show ?thesis
    by (simp add: process_query_def answer_from_def no_documents_result_def)
qed

theorem process_query_no_documents_witness:
  "((True \<and> fst (qa_retrieve_documents empty_store ''what is a contract?'' 5) = [])
      \<or> (\<not> True \<and> (None = None \<or> None = Some [])))
   \<and> fst (process_query failing_env empty_store ''what is a contract?'' True None) =
           \<lparr>answer = ''No relevant documents found to answer your question.'', confidence = Fin 0,
            has_answer = False, source_documents = None\<rparr>
   \<and> snd (process_query failing_env empty_store ''what is a contract?'' True None) =
           [StoreQuery ''what is a contract?'' 5]"
proof -
  have e: "fst (qa_retrieve_documents empty_store ''what is a contract?'' 5) = []"
    by (simp add: qa_retrieve_documents_def qa_retrieve_body_def empty_store_def bind_err_def first_row_def)
  have s: "snd (process_query failing_env empty_store ''what is a contract?'' True None) =
           [StoreQuery ''what is a contract?'' 5]"
    using e by (simp add: process_query_def answer_from_def get_documents_def qa_retrieve_documents_def)
  from process_query_no_documents[of True empty_store "''what is a contract?''" None failing_env] e s
  show ?thesis by simp
qed

lemma span_step_best_ok:
  assumes "span_step env mal input_ids sl el s e best = Inr best'" and "best_ok best"
  shows "best_ok best'"
  using assms
  by (auto simp: span_step_def bind_err_Inr_iff Let_def best_ok_def split: if_splits)

lemma scan_ends_best_ok:
  assumes "scan_ends env mal input_ids sl el s es best = Inr best'" and "best_ok best"
  shows "best_ok best'"
  using assms
proof (induction es arbitrary: best)
  case Nil
  then show ?case by simp
next
  case (Cons e es)
  then show ?case
    by (auto split: sum.splits dest: span_step_best_ok)
qed

lemma scan_starts_best_ok:
  assumes "scan_starts env mal input_ids sl el ss es best = Inr best'" and "best_ok best"
  shows "best_ok best'"
  using assms
proof (induction ss arbitrary: best)
  case Nil
  then show ?case by simp
next
  case (Cons s ss)
  then show ?case
    by (auto split: sum.splits dest: scan_ends_best_ok)
qed

lemma chunk_step_best_ok:
  assumes "chunk_step env question mal chunk best = Inr best'" and "best_ok best"
  shows "best_ok best'"
  using assms
  by (auto simp: chunk_step_def bind_err_Inr_iff dest: scan_starts_best_ok)

lemma scan_chunks_best_ok:
  assumes "scan_chunks env question mal chunks best = Inr best'" and "best_ok best"
  shows "best_ok best'"
  using assms
proof (induction chunks arbitrary: best)
  case Nil
  then show ?case by simp
next
  case (Cons c cs)
  then show ?case
    by (auto split: sum.splits dest: chunk_step_best_ok)
qed

lemma answer_body_cases:
  assumes "answer_body env question context mal = Inr r"
  shows "r = no_context_result \<or> r = not_found_result
       \<or> (has_answer r \<and> confidence r \<noteq> NegInf \<and> answer r \<noteq> [] \<and> source_documents r = None)"
proof (cases "too_short context")
  case True
  with assms show ?thesis by (simp add: answer_body_def)
next
  case False
  with assms obtain chunks best where
    sc: "scan_chunks env question mal chunks ([], NegInf) = Inr best"
    and r: "r = best_result best"
    by (auto simp: answer_body_def bind_err_Inr_iff)
  have "best_ok best"
    using scan_chunks_best_ok[OF sc] by (simp add: best_ok_def)
  with r show ?thesis
    by (auto simp: best_ok_def best_result_def)
qed

lemma answer_question_cases:
  "answer_question env question context mal = no_context_result
   \<or> answer_question env question context mal = not_found_result
   \<or> (\<exists>e. answer_question env question context mal = answer_error_result e)
   \<or> (has_answer (answer_question env question context mal)
       \<and> confidence (answer_question env question context mal) \<noteq> NegInf
       \<and> source_documents (answer_question env question context mal) = None)"
proof (cases "answer_body env question context mal")
  case (Inl e)
  then show ?thesis by (auto simp: answer_question_def)
next
  case (Inr r)
  then have "answer_question env question context mal = r" by (simp add: answer_question_def)
  with answer_body_cases[OF Inr] show ?thesis by auto
qed

lemma answer_question_no_sources:
  "source_documents (answer_question env question context mal) = None"
  using answer_question_cases[of env question "context" mal]
  by (auto simp: no_context_result_def not_found_result_def answer_error_result_def)

lemma answer_question_confidence:
  "(\<not> has_answer (answer_question env question context mal)
      \<longrightarrow> confidence (answer_question env question context mal) = Fin 0)
   \<and> confidence (answer_question env question context mal) \<noteq> NegInf"
  using answer_question_cases[of env question "context" mal]
  by (auto simp: no_context_result_def not_found_result_def answer_error_result_def)

lemma process_query_result:
  "fst (process_query env collection query use_retrieved_docs provided_docs) = no_documents_result
   \<or> (\<exists>e. fst (process_query env collection query use_retrieved_docs provided_docs)
            = query_error_result e)
   \<or> (\<exists>c. fst (process_query env collection query use_retrieved_docs provided_docs)
            = answer_question env query c 100)"
  by (auto simp: process_query_def answer_from_def split: prod.splits sum.splits if_splits)

text \<open>
  C10: every result of answer_question and of process_query with \<open>has_answer = False\<close> has
  confidence 0.0, and no result carries the negative-infinity sentinel of the span search.
\<close>

theorem no_answer_confidence_zero:
  "(\<not> has_answer (answer_question env question context max_answer_length)
      \<longrightarrow> confidence (answer_question env question context max_answer_length) = Fin 0)
   \<and> confidence (answer_question env question context max_answer_length) \<noteq> NegInf
   \<and> (\<not> has_answer (fst (process_query env collection query use_retrieved_docs provided_docs))
      \<longrightarrow> confidence (fst (process_query env collection query use_retrieved_docs provided_docs)) = Fin 0)
   \<and> confidence (fst (process_query env collection query use_retrieved_docs provided_docs)) \<noteq> NegInf"
proof -
  have "(\<not> has_answer (fst (process_query env collection query use_retrieved_docs provided_docs))
      \<longrightarrow> confidence (fst (process_query env collection query use_retrieved_docs provided_docs)) = Fin 0)
   \<and> confidence (fst (process_query env collection query use_retrieved_docs provided_docs)) \<noteq> NegInf"
    using process_query_result[of env collection query use_retrieved_docs provided_docs]
      answer_question_confidence[of env query _ 100]
    by (auto simp: no_documents_result_def query_error_result_def)
  with answer_question_confidence[of env question "context" max_answer_length]
  show ?thesis by blast
qed

theorem no_answer_confidence_zero_witness:
  "\<not> has_answer (answer_question failing_env ''what is a contract?'' ''a contract is an agreement'' 100)
   \<and> confidence (answer_question failing_env ''what is a contract?'' ''a contract is an agreement'' 100) = Fin 0
   \<and> \<not> has_answer (fst (process_query failing_env textless_store ''what is a contract?'' True None))
   \<and> confidence (fst (process_query failing_env textless_store ''what is a contract?'' True None)) = Fin 0"
proof -
  have a: "\<not> has_answer (answer_question failing_env ''what is a contract?'' ''a contract is an agreement'' 100)"
    by code_simp
  have b: "\<not> has_answer (fst (process_query failing_env textless_store ''what is a contract?'' True None))"
    by code_simp
  from no_answer_confidence_zero[of failing_env "''what is a contract?''" "''a contract is an agreement''" 100
      textless_store "''what is a contract?''" True None] a b
  show ?thesis by simp
qed

lemma map_err_append:
  "map_err f (xs @ ys) =
     (case map_err f xs of
        Inl e \<Rightarrow> Inl e
      | Inr as \<Rightarrow> (case map_err f ys of Inl e \<Rightarrow> Inl e | Inr bs \<Rightarrow> Inr (as @ bs)))"
  by (induction xs) (auto split: sum.splits)

lemma map_err_Inr_set:
  "map_err f xs = Inr ys \<Longrightarrow> y \<in> set ys \<Longrightarrow> \<exists>x \<in> set xs. f x = Inr y"
proof (induction xs arbitrary: ys)
  case Nil
  then show ?case by simp
next
  case (Cons x xs)
  then show ?case
    by (auto split: sum.splits)
qed

lemma somes_append: "somes (xs @ ys) = somes xs @ somes ys"
  by (induction xs rule: somes.induct) simp_all

lemma span_step_eq:
  "span_step env mal input_ids sl el s e best =
     (case span_candidate env mal input_ids sl el (s, e) of
        Inl x \<Rightarrow> Inl x
      | Inr None \<Rightarrow> Inr best
      | Inr (Some c) \<Rightarrow> Inr (better best c))"
  by (cases "item sl s"; cases "item el e";
      cases "tok_decode env True (slice input_ids s (e + 1))")
     (simp_all add: span_step_def span_candidate_def better_def Let_def)

lemma scan_ends_eq:
  "scan_ends env mal input_ids sl el s es best =
     bind_err (map_err (span_candidate env mal input_ids sl el) (map (Pair s) es))
       (\<lambda>cs. Inr (foldl better best (somes cs)))"
proof (induction es arbitrary: best)
  case Nil
  show ?case by simp
next
  case (Cons e es)
  show ?case
    by (simp add: span_step_eq Cons.IH split: sum.splits option.splits)
qed

lemma scan_starts_eq:
  "scan_starts env mal input_ids sl el ss es best =
     bind_err (map_err (span_candidate env mal input_ids sl el) (List.product ss es))
       (\<lambda>cs. Inr (foldl better best (somes cs)))"
proof (induction ss arbitrary: best)
  case Nil
  show ?case by simp
next
  case (Cons s ss)
  show ?case
    by (simp add: scan_ends_eq Cons.IH map_err_append somes_append split: sum.splits)
qed

lemma chunk_step_eq:
  "chunk_step env question mal chunk best =
     bind_err (chunk_candidates env question mal chunk) (\<lambda>cs. Inr (foldl better best cs))"
  by (simp add: chunk_step_def chunk_candidates_def pair_candidates_def scan_starts_eq bind_err_assoc)

lemma scan_chunks_eq:
  "scan_chunks env question mal chunks best =
     bind_err (map_err (chunk_candidates env question mal) chunks)
       (\<lambda>css. Inr (foldl better best (concat css)))"
proof (induction chunks arbitrary: best)
  case Nil
  show ?case by simp
next
  case (Cons c cs)
  show ?case
    by (simp add: chunk_step_eq Cons.IH split: sum.splits)
qed

lemma answer_body_eq:
  assumes "\<not> too_short context"
  shows "answer_body env question context mal =
     bind_err (all_candidates env question context mal)
       (\<lambda>cands. Inr (best_result (foldl better ([], NegInf) cands)))"
  using assms
  by (simp add: answer_body_def all_candidates_def scan_chunks_eq bind_err_assoc)

lemma span_candidate_text:
  "span_candidate env mal input_ids sl el p = Inr (Some c) \<Longrightarrow> fst c \<noteq> []"
  by (auto simp: span_candidate_def bind_err_def strip_def split: if_splits sum.splits)

lemma somes_set: "c \<in> set (somes cs) \<longleftrightarrow> Some c \<in> set cs"
  by (induction cs rule: somes.induct) auto

lemma chunk_candidates_text:
  assumes "chunk_candidates env question mal chunk = Inr cs" and "c \<in> set cs"
  shows "fst c \<noteq> []"
proof -
  from assms(1) obtain input_ids sl el pairs os where
    m: "map_err (span_candidate env mal input_ids sl el) pairs = Inr os" and cs: "cs = somes os"
    by (auto simp: chunk_candidates_def pair_candidates_def bind_err_Inr_iff)
  from assms(2) cs have "Some c \<in> set os" by (simp add: somes_set)
  from map_err_Inr_set[OF m this] obtain p where
    "span_candidate env mal input_ids sl el p = Inr (Some c)" by blast
  then show ?thesis by (rule span_candidate_text)
qed

lemma all_candidates_text:
  assumes "all_candidates env question context mal = Inr cands" and "c \<in> set cands"
  shows "fst c \<noteq> []"
proof -
  from assms(1) obtain chunks css where
    m: "map_err (chunk_candidates env question mal) chunks = Inr css" and cs: "cands = concat css"
    by (auto simp: all_candidates_def bind_err_Inr_iff)
  from assms(2) cs obtain cs' where i: "cs' \<in> set css" and c: "c \<in> set cs'" by auto
  from map_err_Inr_set[OF m i] obtain chunk where
    "chunk_candidates env question mal chunk = Inr cs'" by blast
  from chunk_candidates_text[OF this c] show ?thesis .
qed

lemma foldl_better_Fin:
  "\<exists>t c. foldl better (t0, Fin c0) cands = (t, Fin c) \<and> c0 \<le> c
         \<and> ((t, c) = (t0, c0) \<or> (t, c) \<in> set cands) \<and> (\<forall>p \<in> set cands. snd p \<le> c)"
proof (induction cands arbitrary: t0 c0)
  case Nil
  show ?case by simp
next
  case (Cons x xs)
  show ?case
  proof (cases "c0 < snd x")
    case True
    then have b: "better (t0, Fin c0) x = (fst x, Fin (snd x))"
      by (simp add: better_def score_gt_def)
    from Cons.IH[of "fst x" "snd x"] obtain t c where
      f: "foldl better (fst x, Fin (snd x)) xs = (t, Fin c)" and le: "snd x \<le> c"
      and m: "(t, c) = (fst x, snd x) \<or> (t, c) \<in> set xs" and u: "\<forall>p \<in> set xs. snd p \<le> c"
      by blast
    have "foldl better (t0, Fin c0) (x # xs) = (t, Fin c)" using b f by simp
    moreover have "c0 \<le> c" using True le by simp
    moreover have "(t, c) \<in> set (x # xs)" using m by auto
    moreover have "\<forall>p \<in> set (x # xs). snd p \<le> c" using u le by simp
    ultimately show ?thesis by blast
  next
    case False
    then have b: "better (t0, Fin c0) x = (t0, Fin c0)"
      by (simp add: better_def score_gt_def)
    from Cons.IH[of t0 c0] obtain t c where
      f: "foldl better (t0, Fin c0) xs = (t, Fin c)" and le: "c0 \<le> c"
      and m: "(t, c) = (t0, c0) \<or> (t, c) \<in> set xs" and u: "\<forall>p \<in> set xs. snd p \<le> c"
      by blast
    have "foldl better (t0, Fin c0) (x # xs) = (t, Fin c)" using b f by simp
    moreover have "(t, c) = (t0, c0) \<or> (t, c) \<in> set (x # xs)" using m by auto
    moreover have "\<forall>p \<in> set (x # xs). snd p \<le> c" using u le False by simp
    ultimately show ?thesis using le by blast
  qed
qed

lemma foldl_better_start:
  assumes "cands \<noteq> []"
  shows "\<exists>t c. foldl better ([], NegInf) cands = (t, Fin c)
         \<and> (t, c) \<in> set cands \<and> (\<forall>p \<in> set cands. snd p \<le> c)"
proof -
  from assms obtain x xs where cands: "cands = x # xs" by (cases cands) auto
  have b: "better ([], NegInf) x = (fst x, Fin (snd x))"
    by (simp add: better_def score_gt_def)
  from foldl_better_Fin[of "fst x" "snd x" xs] obtain t c where
    f: "foldl better (fst x, Fin (snd x)) xs = (t, Fin c)" and le: "snd x \<le> c"
    and m: "(t, c) = (fst x, snd x) \<or> (t, c) \<in> set xs" and u: "\<forall>p \<in> set xs. snd p \<le> c"
    by blast
  have "foldl better ([], NegInf) cands = (t, Fin c)" using cands b f by simp
  moreover have "(t, c) \<in> set cands" using m cands by auto
  moreover have "\<forall>p \<in> set cands. snd p \<le> c" using u le cands by simp
  ultimately show ?thesis by blast
qed

text \<open>The guard of line 100 strips the no-break space and the next-line control too.\<close>

lemma too_short_no_break_space:
  "too_short (''[ok]'' @ [CHR 0xA0]) \<and> too_short (''[ok]'' @ [CHR 0x85])"
  by (simp add: too_short_def strip_def is_space_def)

text \<open>
  The claim C3 as stated fails on a context of five characters that are fewer than five
  once stripped: the mock model finds the valid span \<open>[ok]\<close> in it, and answer_question
  returns the no-context result.
\<close>

theorem answer_question_padded_context_counterexample:
  "length ''[ok] '' = 5
   \<and> (case all_candidates mock_env ''q'' ''[ok] '' 100 of
         Inl e \<Rightarrow> False | Inr cands \<Rightarrow> (''[ok]'', 9) \<in> set cands)
   \<and> answer_question mock_env ''q'' ''[ok] '' 100 =
        \<lparr>answer = ''No context provided to answer the question.'', confidence = Fin 0,
         has_answer = False, source_documents = None\<rparr>"
proof -
  have a: "(case all_candidates mock_env ''q'' ''[ok] '' 100 of
         Inl e \<Rightarrow> False | Inr cands \<Rightarrow> (''[ok]'', 9) \<in> set cands)"
    by code_simp
  have b: "answer_question mock_env ''q'' ''[ok] '' 100 =
        \<lparr>answer = ''No context provided to answer the question.'', confidence = Fin 0,
         has_answer = False, source_documents = None\<rparr>"
    by code_simp
  from a b show ?thesis by simp
qed

text \<open>
  C3, amended: for every question and every context of at least 5 characters after
  stripping whitespace, answer_question returns the error result when a tokenizer or model
  call raises; otherwise, when some chunk has a valid candidate span (end not before start,
  at most \<open>max_answer_length\<close> tokens, not blank after decoding), it returns the decoded
  text of a candidate whose start plus end score is the maximum over the candidates of all
  chunks, with \<open>has_answer = True\<close> and that maximum as confidence; and when no chunk has a
  valid candidate it returns \<open>has_answer = False\<close>, the fixed "couldn't find an answer"
  message and confidence 0.0.
\<close>

theorem answer_question_global_best:
  assumes "\<not> too_short context"
  shows "case all_candidates env question context max_answer_length of
           Inl e \<Rightarrow> answer_question env question context max_answer_length = answer_error_result e
         | Inr cands \<Rightarrow>
             if cands = []
             then answer_question env question context max_answer_length = not_found_result
             else has_answer (answer_question env question context max_answer_length)
                \<and> (\<exists>c. confidence (answer_question env question context max_answer_length) = Fin c
                       \<and> (answer (answer_question env question context max_answer_length), c) \<in> set cands
                       \<and> (\<forall>p \<in> set cands. snd p \<le> c))"
proof (cases "all_candidates env question context max_answer_length")
  case (Inl e)
  then show ?thesis
    using assms by (simp add: answer_question_def answer_body_eq)
next
  case (Inr cands)
  then have r: "answer_question env question context max_answer_length
                  = best_result (foldl better ([], NegInf) cands)"
    using assms by (simp add: answer_question_def answer_body_eq)
  show ?thesis
  proof (cases "cands = []")
    case True
    with r Inr show ?thesis by (simp add: best_result_def)
  next
    case False
    from foldl_better_start[OF False] obtain t c where
      f: "foldl better ([], NegInf) cands = (t, Fin c)"
      and m: "(t, c) \<in> set cands" and u: "\<forall>p \<in> set cands. snd p \<le> c"
      by blast
    from all_candidates_text[OF Inr m] have "t \<noteq> []" by simp
    with r f have "answer_question env question context max_answer_length
                     = \<lparr>answer = t, confidence = Fin c, has_answer = True, source_documents = None\<rparr>"
      by (simp add: best_result_def)
    with m u False Inr show ?thesis by auto
  qed
qed

theorem answer_question_global_best_witness:
  "\<not> too_short two_paragraphs
   \<and> split_context mock_env long_question two_paragraphs = Inr [''[weak]'', ''{strong}'']
   \<and> answer_question mock_env long_question two_paragraphs 100 =
        \<lparr>answer = ''{strong}'', confidence = Fin 13, has_answer = True, source_documents = None\<rparr>
   \<and> (case all_candidates mock_env long_question two_paragraphs 100 of
           Inl e \<Rightarrow> answer_question mock_env long_question two_paragraphs 100 = answer_error_result e
         | Inr cands \<Rightarrow>
             if cands = []
             then answer_question mock_env long_question two_paragraphs 100 = not_found_result
             else has_answer (answer_question mock_env long_question two_paragraphs 100)
                \<and> (\<exists>c. confidence (answer_question mock_env long_question two_paragraphs 100) = Fin c
                       \<and> (answer (answer_question mock_env long_question two_paragraphs 100), c) \<in> set cands
                       \<and> (\<forall>p \<in> set cands. snd p \<le> c)))"
proof -
  have s: "\<not> too_short two_paragraphs"
    by code_simp
  have c: "split_context mock_env long_question two_paragraphs = Inr [''[weak]'', ''{strong}'']"
    by code_simp
  have a: "answer_question mock_env long_question two_paragraphs 100 =
        \<lparr>answer = ''{strong}'', confidence = Fin 13, has_answer = True, source_documents = None\<rparr>"
    by code_simp
  from answer_question_global_best[OF s, of mock_env long_question 100] s c a
  show ?thesis by blast
qed

section \<open>Soft failures\<close>

lemma collect_matches_split:
  "collect_matches results thr (xs @ ys) ms =
     (case collect_matches results thr xs ms of
        Inl e \<Rightarrow> Inl e
      | Inr ms' \<Rightarrow> collect_matches results thr ys ms')"
proof (induction xs arbitrary: ms)
  case Nil
  show ?case by simp
next
  case (Cons x xs)
  obtain i ident where x: "x = (i, ident)" by (cases x)
  show ?case
    by (simp add: x Cons.IH split: sum.splits option.splits)
qed

lemma collect_matches_succeeds:
  assumes "\<forall>p \<in> set xs. \<exists>r. match_step results thr (fst p) (snd p) = Inr r"
  shows "\<exists>ms'. collect_matches results thr xs ms = Inr ms'"
  using assms
proof (induction xs arbitrary: ms)
  case Nil
  show ?case by simp
next
  case (Cons x xs)
  obtain i ident where x: "x = (i, ident)" by (cases x)
  from Cons.prems x obtain r where r: "match_step results thr i ident = Inr r" by auto
  from Cons.prems have rest: "\<forall>p \<in> set xs. \<exists>r. match_step results thr (fst p) (snd p) = Inr r"
    by simp
  show ?case
  proof (cases r)
    case None
    with r x Cons.IH[OF rest, of ms] show ?thesis by simp
  next
    case (Some m)
    with r x Cons.IH[OF rest, of "ms @ [m]"] show ?thesis by simp
  qed
qed

lemma collect_matches_first_failure:
  assumes "\<forall>p \<in> set pre. \<exists>r. match_step results thr (fst p) (snd p) = Inr r"
    and "match_step results thr i ident = Inl e"
  shows "collect_matches results thr (pre @ (i, ident) # post) ms = Inl e"
proof -
  from collect_matches_succeeds[OF assms(1), of ms] obtain ms' where
    "collect_matches results thr pre ms = Inr ms'" by blast
  with assms(2) show ?thesis by (simp add: collect_matches_split)
qed

lemma documents_row:
  assumes "\<not> no_documents results"
  obtains row rest where "res_documents results = Present (row # rest)" and "row \<noteq> []"
  using assms by (auto simp: no_documents_def split: field.splits list.splits)

lemma match_step_fault:
  assumes nd: "\<not> no_documents results"
  shows "match_step results thr i ident =
           (case chunk_fault results thr i of Some e \<Rightarrow> Inl e | None \<Rightarrow> match_step results thr i ident)
         \<and> (chunk_fault results thr i = None \<longrightarrow> (\<exists>r. match_step results thr i ident = Inr r))"
proof -
  from nd obtain row rest where docs: "res_documents results = Present (row # rest)"
    by (rule documents_row)
  show ?thesis
  proof (cases "res_distances results")
    case Absent
    then have d: "distance_at results i = Inr None" by (simp add: distance_at_def)
    show ?thesis
      by (cases "row ! i"; cases "map_of (metadata_at results i) ''text''")
         (simp_all add: match_step_def chunk_fault_def below_threshold_def d Absent docs
            first_row_def item_def Let_def falsy_text_def)
  next
    case PyNone
    then show ?thesis
      by (simp add: match_step_def chunk_fault_def distance_at_def first_row_def)
  next
    case (Present rows)
    show ?thesis
    proof (cases rows)
      case Nil
      with Present show ?thesis
        by (simp add: match_step_def chunk_fault_def distance_at_def first_row_def)
    next
      case (Cons drow more_rows)
      with Present have d: "distance_at results i = Inr (if i < length drow then Some (drow ! i) else None)"
        by (simp add: distance_at_def first_row_def)
      show ?thesis
        by (cases "row ! i"; cases "map_of (metadata_at results i) ''text''")
           (simp_all add: match_step_def chunk_fault_def below_threshold_def d Present Cons docs
              first_row_def item_def Let_def falsy_text_def)
    qed
  qed
qed

lemma retrieve_chunk_fault:
  assumes "query \<noteq> []" and "collection query top_k = Inr results" and "\<not> no_documents results"
    and "first_row ''ids'' (res_ids results) = Inr ids0" and "i < length ids0"
    and "\<forall>j<i. chunk_fault results thr j = None" and "chunk_fault results thr i = Some e"
  shows "fst (retrieve_documents collection query top_k thr)
           = \<lparr>matches = [], error = Some (str_of_error e)\<rparr>"
proof -
  have split: "enumerate 0 ids0
      = enumerate 0 (take i ids0) @ (i, ids0 ! i) # enumerate (Suc i) (drop (Suc i) ids0)"
  proof -
    have "ids0 = take i ids0 @ ids0 ! i # drop (Suc i) ids0"
      using assms(5) by (rule id_take_nth_drop)
    then have "enumerate 0 ids0 = enumerate 0 (take i ids0 @ ids0 ! i # drop (Suc i) ids0)"
      by simp
    also have "\<dots> = enumerate 0 (take i ids0) @ (i, ids0 ! i) # enumerate (Suc i) (drop (Suc i) ids0)"
      using assms(5) by (simp add: enumerate_append_eq min_def)
    finally show ?thesis .
  qed
  have pre: "\<forall>p \<in> set (enumerate 0 (take i ids0)). \<exists>r. match_step results thr (fst p) (snd p) = Inr r"
  proof
    fix p assume "p \<in> set (enumerate 0 (take i ids0))"
    then have "fst p < i" by (simp add: in_set_enumerate_eq)
    with assms(6) have "chunk_fault results thr (fst p) = None" by simp
    with match_step_fault[OF assms(3), of thr "fst p" "snd p"]
    show "\<exists>r. match_step results thr (fst p) (snd p) = Inr r" by simp
  qed
  from match_step_fault[OF assms(3), of thr i "ids0 ! i"] assms(7)
  have "match_step results thr i (ids0 ! i) = Inl e" by simp
  from collect_matches_first_failure[OF pre this]
  have "collect_matches results thr (enumerate 0 ids0) [] = Inl e"
    by (simp add: split)
  with assms(1,2,3,4) show ?thesis
    by (simp add: retrieve_documents_def retrieve_body_def surviving_matches_def)
qed

lemma map_err_first_failure:
  assumes "\<forall>y \<in> set pre. \<exists>r. f y = Inr r" and "f x = Inl e"
  shows "map_err f (pre @ x # post) = Inl e"
  using assms(1)
proof (induction pre)
  case Nil
  with assms(2) show ?case by simp
next
  case (Cons y ys)
  then obtain r where "f y = Inr r" by auto
  with Cons show ?case by simp
qed

lemma paragraph_step_succeeds:
  assumes "strip p = [] \<or> (\<exists>ts. tok_encode env p = Inr ts)"
  shows "\<exists>st'. paragraph_step env m p st = Inr st'"
  using assms by (cases st) (auto simp: paragraph_step_def)

lemma split_paragraphs_first_failure:
  assumes "filter (\<lambda>p. strip p \<noteq> []) ps = pre @ p # post"
    and "\<forall>q \<in> set pre. \<exists>ts. tok_encode env q = Inr ts"
    and "tok_encode env p = Inl e"
  shows "split_paragraphs env m ps st = Inl e"
  using assms(1,2)
proof (induction ps arbitrary: st pre)
  case Nil
  then show ?case by simp
next
  case (Cons x xs)
  show ?case
  proof (cases "strip x = []")
    case True
    with Cons.prems(1) have f: "filter (\<lambda>p. strip p \<noteq> []) xs = pre @ p # post" by simp
    from True have "paragraph_step env m x st = Inr st"
      by (cases st) (simp add: paragraph_step_def)
    with Cons.IH[OF f Cons.prems(2)] show ?thesis by simp
  next
    case False
    with Cons.prems(1) have f: "x # filter (\<lambda>p. strip p \<noteq> []) xs = pre @ p # post" by simp
    show ?thesis
    proof (cases pre)
      case Nil
      with f have "x = p" by simp
      with False assms(3) have "paragraph_step env m x st = Inl e"
        by (cases st) (simp add: paragraph_step_def)
      then show ?thesis by simp
    next
      case (Cons y pre')
      with f have x: "x = y" and f': "filter (\<lambda>p. strip p \<noteq> []) xs = pre' @ p # post"
        by simp_all
      from Cons.prems(2) Cons x obtain ts where "tok_encode env x = Inr ts" by auto
      then obtain st' where s: "paragraph_step env m x st = Inr st'"
        using paragraph_step_succeeds[of x env m st] by blast
      from Cons.prems(2) Cons have "\<forall>q \<in> set pre'. \<exists>ts. tok_encode env q = Inr ts" by simp
      from Cons.IH[OF f' this, of st'] s show ?thesis by simp
    qed
  qed
qed

lemma answer_question_raises:
  assumes "\<not> too_short context" and "all_candidates env question context mal = Inl e"
  shows "answer_question env question context mal = answer_error_result e"
  using assms by (simp add: answer_question_def answer_body_eq)

lemma question_encode_failure:
  assumes "\<not> too_short context" and "tok_encode env question = Inl e"
  shows "answer_question env question context mal = answer_error_result e"
  using assms by (intro answer_question_raises) (simp_all add: all_candidates_def split_context_def)

lemma paragraph_encode_failure:
  assumes "\<not> too_short context" and "tok_encode env question = Inr question_tokens"
    and "paragraphs_of context = pre @ p # post"
    and "\<forall>q \<in> set pre. \<exists>ts. tok_encode env q = Inr ts" and "tok_encode env p = Inl e"
  shows "answer_question env question context mal = answer_error_result e"
proof -
  from split_paragraphs_first_failure[OF assms(3)[unfolded paragraphs_of_def] assms(4,5)]
  have "split_context env question context = Inl e"
    using assms(2) by (simp add: split_context_def)
  with assms(1) show ?thesis
    by (intro answer_question_raises) (simp_all add: all_candidates_def)
qed

lemma chunk_failure:
  assumes "\<not> too_short context" and "split_context env question context = Inr (pre @ c # post)"
    and "\<forall>c' \<in> set pre. \<exists>cs. chunk_candidates env question mal c' = Inr cs"
    and "chunk_candidates env question mal c = Inl e"
  shows "answer_question env question context mal = answer_error_result e"
proof -
  from map_err_first_failure[OF assms(3,4)]
  have "map_err (chunk_candidates env question mal) (pre @ c # post) = Inl e" .
  with assms(1,2) show ?thesis
    by (intro answer_question_raises) (simp_all add: all_candidates_def)
qed

lemma topk_in_range:
  assumes "topk logits k = Inr positions" and "i \<in> set positions"
  shows "i < length logits"
proof -
  from assms(1) have "positions = take k (sort_key (\<lambda>i. - (logits ! i)) [0..<length logits])"
    by (simp add: topk_def split: if_splits)
  with assms(2) have "i \<in> set (sort_key (\<lambda>i. - (logits ! i)) [0..<length logits])"
    by (auto dest: in_set_takeD)
  then show ?thesis by simp
qed

lemma topk_short: "length logits < k \<Longrightarrow> topk logits k = Inl (RuntimeError ''selected index k out of range'')"
  by (simp add: topk_def)

lemma topk_long: "\<not> length logits < k \<Longrightarrow> \<exists>ps. topk logits k = Inr ps"
  by (simp add: topk_def)

lemma chunk_candidates_failures:
  "(tok_pair env question c 512 = Inl e \<longrightarrow> chunk_candidates env question mal c = Inl e)
   \<and> (tok_pair env question c 512 = Inr input_ids \<and> model_forward env input_ids = Inl e \<longrightarrow>
        chunk_candidates env question mal c = Inl e)
   \<and> (tok_pair env question c 512 = Inr input_ids \<and> model_forward env input_ids = Inr (sl, el)
        \<and> (length sl < 10 \<or> length el < 10) \<longrightarrow>
        chunk_candidates env question mal c = Inl (RuntimeError ''selected index k out of range''))
   \<and> (tok_pair env question c 512 = Inr input_ids \<and> model_forward env input_ids = Inr (sl, el)
        \<and> topk sl 10 = Inr start_indexes \<and> topk el 10 = Inr end_indexes
        \<and> List.product start_indexes end_indexes = before @ (s, t) # after
        \<and> (\<forall>q \<in> set before. \<exists>r. span_candidate env mal input_ids sl el q = Inr r)
        \<and> s \<le> t \<and> int t - int s + 1 \<le> mal
        \<and> tok_decode env True (slice input_ids s (t + 1)) = Inl e \<longrightarrow>
        chunk_candidates env question mal c = Inl e)"
proof (intro conjI impI)
  assume "tok_pair env question c 512 = Inl e"
  then show "chunk_candidates env question mal c = Inl e"
    by (simp add: chunk_candidates_def)
next
  assume "tok_pair env question c 512 = Inr input_ids \<and> model_forward env input_ids = Inl e"
  then show "chunk_candidates env question mal c = Inl e"
    by (simp add: chunk_candidates_def)
next
  assume a: "tok_pair env question c 512 = Inr input_ids \<and> model_forward env input_ids = Inr (sl, el)
        \<and> (length sl < 10 \<or> length el < 10)"
  show "chunk_candidates env question mal c = Inl (RuntimeError ''selected index k out of range'')"
  proof (cases "length sl < 10")
    case True
    with a show ?thesis by (simp add: chunk_candidates_def topk_short)
  next
    case False
    with a have el: "length el < 10" by simp
    from False obtain ps where "topk sl 10 = Inr ps" using topk_long by blast
    with a el show ?thesis by (simp add: chunk_candidates_def topk_short)
  qed
next
  assume a: "tok_pair env question c 512 = Inr input_ids \<and> model_forward env input_ids = Inr (sl, el)
        \<and> topk sl 10 = Inr start_indexes \<and> topk el 10 = Inr end_indexes
        \<and> List.product start_indexes end_indexes = before @ (s, t) # after
        \<and> (\<forall>q \<in> set before. \<exists>r. span_candidate env mal input_ids sl el q = Inr r)
        \<and> s \<le> t \<and> int t - int s + 1 \<le> mal
        \<and> tok_decode env True (slice input_ids s (t + 1)) = Inl e"
  then have "(s, t) \<in> set (List.product start_indexes end_indexes)" by simp
  then have "s \<in> set start_indexes" "t \<in> set end_indexes" by simp_all
  with a have "s < length sl" "t < length el"
    by (auto dest: topk_in_range)
  with a have "span_candidate env mal input_ids sl el (s, t) = Inl e"
    by (simp add: span_candidate_def item_def)
  with a have "map_err (span_candidate env mal input_ids sl el)
                 (List.product start_indexes end_indexes) = Inl e"
    by (simp add: map_err_first_failure)
  with a show "chunk_candidates env question mal c = Inl e"
    by (simp add: chunk_candidates_def pair_candidates_def)
qed

text \<open>
  C6: retrieve_documents and answer_question return a result for every input, and whatever
  step raises inside them, the result is the soft failure carrying the message of that
  exception. For retrieve_documents with a non-empty query: the store call, the access to
  the ids of the result, and the first chunk at fault (distances that hold \<open>None\<close> or no
  row, a missing entry in the documents row, a \<open>None\<close> text without a \<open>text\<close> in the
  metadata) each give the empty match list with the error marker \<open>str(e)\<close>; and an envelope
  with an error marker never carries matches. For answer_question on a context that passes
  the length guard: the encoding of the question, the encoding of the first paragraph that
  fails, and the first chunk whose scoring fails (the pair encoding, the model, the top-10
  selection on fewer than ten positions, the decoding of a valid span) each give
  \<open>has_answer = False\<close>, confidence 0.0 and the message embedded in the answer.
\<close>

theorem soft_failure_results:
  "(query \<noteq> [] \<and> collection query top_k = Inl e \<longrightarrow>
      fst (retrieve_documents collection query top_k similarity_threshold)
        = \<lparr>matches = [], error = Some (str_of_error e)\<rparr>)
   \<and> (query \<noteq> [] \<and> collection query top_k = Inr results \<and> \<not> no_documents results
        \<and> first_row ''ids'' (res_ids results) = Inl e \<longrightarrow>
      fst (retrieve_documents collection query top_k similarity_threshold)
        = \<lparr>matches = [], error = Some (str_of_error e)\<rparr>)
   \<and> (query \<noteq> [] \<and> collection query top_k = Inr results \<and> \<not> no_documents results
        \<and> first_row ''ids'' (res_ids results) = Inr ids0 \<and> i < length ids0
        \<and> (\<forall>j<i. chunk_fault results similarity_threshold j = None)
        \<and> chunk_fault results similarity_threshold i = Some e \<longrightarrow>
      fst (retrieve_documents collection query top_k similarity_threshold)
        = \<lparr>matches = [], error = Some (str_of_error e)\<rparr>)
   \<and> (error (fst (retrieve_documents collection query top_k similarity_threshold)) = None
        \<or> matches (fst (retrieve_documents collection query top_k similarity_threshold)) = [])
   \<and> (\<not> too_short context \<and> tok_encode env question = Inl e' \<longrightarrow>
      answer_question env question context max_answer_length = answer_error_result e')
   \<and> (\<not> too_short context \<and> tok_encode env question = Inr question_tokens
        \<and> paragraphs_of context = earlier @ failing # later
        \<and> (\<forall>q \<in> set earlier. \<exists>ts. tok_encode env q = Inr ts)
        \<and> tok_encode env failing = Inl e' \<longrightarrow>
      answer_question env question context max_answer_length = answer_error_result e')
   \<and> (\<not> too_short context \<and> split_context env question context = Inr (scored @ chunk # unscored)
        \<and> (\<forall>c \<in> set scored. \<exists>cs. chunk_candidates env question max_answer_length c = Inr cs)
        \<and> chunk_candidates env question max_answer_length chunk = Inl e' \<longrightarrow>
      answer_question env question context max_answer_length = answer_error_result e')
   \<and> (tok_pair env question chunk 512 = Inl e' \<longrightarrow>
        chunk_candidates env question max_answer_length chunk = Inl e')
   \<and> (tok_pair env question chunk 512 = Inr input_ids \<and> model_forward env input_ids = Inl e' \<longrightarrow>
        chunk_candidates env question max_answer_length chunk = Inl e')
   \<and> (tok_pair env question chunk 512 = Inr input_ids \<and> model_forward env input_ids = Inr (sl, el)
        \<and> (length sl < 10 \<or> length el < 10) \<longrightarrow>
        chunk_candidates env question max_answer_length chunk
          = Inl (RuntimeError ''selected index k out of range''))
   \<and> (tok_pair env question chunk 512 = Inr input_ids \<and> model_forward env input_ids = Inr (sl, el)
        \<and> topk sl 10 = Inr start_indexes \<and> topk el 10 = Inr end_indexes
        \<and> List.product start_indexes end_indexes = before @ (s, t) # after
        \<and> (\<forall>q \<in> set before. \<exists>r. span_candidate env max_answer_length input_ids sl el q = Inr r)
        \<and> s \<le> t \<and> int t - int s + 1 \<le> max_answer_length
        \<and> tok_decode env True (slice input_ids s (t + 1)) = Inl e' \<longrightarrow>
        chunk_candidates env question max_answer_length chunk = Inl e')
   \<and> answer_error_result e' =
        \<lparr>answer = ''Error processing your question: '' @ str_of_error e', confidence = Fin 0,
         has_answer = False, source_documents = None\<rparr>"
proof -
  let ?R = "fst (retrieve_documents collection query top_k similarity_threshold)"
  have r1: "query \<noteq> [] \<and> collection query top_k = Inl e \<longrightarrow>
      ?R = \<lparr>matches = [], error = Some (str_of_error e)\<rparr>"
    by (simp add: retrieve_documents_def retrieve_body_def surviving_matches_def)
  have r2: "query \<noteq> [] \<and> collection query top_k = Inr results \<and> \<not> no_documents results
        \<and> first_row ''ids'' (res_ids results) = Inl e \<longrightarrow>
      ?R = \<lparr>matches = [], error = Some (str_of_error e)\<rparr>"
    by (simp add: retrieve_documents_def retrieve_body_def surviving_matches_def)
  have r3: "query \<noteq> [] \<and> collection query top_k = Inr results \<and> \<not> no_documents results
        \<and> first_row ''ids'' (res_ids results) = Inr ids0 \<and> i < length ids0
        \<and> (\<forall>j<i. chunk_fault results similarity_threshold j = None)
        \<and> chunk_fault results similarity_threshold i = Some e \<longrightarrow>
      ?R = \<lparr>matches = [], error = Some (str_of_error e)\<rparr>"
    using retrieve_chunk_fault[of query collection top_k results ids0 i similarity_threshold e]
    by blast
  have r4: "error ?R = None \<or> matches ?R = []"
    by (simp add: retrieve_documents_def split: sum.splits)
  have a1: "\<not> too_short context \<and> tok_encode env question = Inl e' \<longrightarrow>
      answer_question env question context max_answer_length = answer_error_result e'"
    using question_encode_failure[of "context" env question e' max_answer_length] by blast
  have a2: "\<not> too_short context \<and> tok_encode env question = Inr question_tokens
        \<and> paragraphs_of context = earlier @ failing # later
        \<and> (\<forall>q \<in> set earlier. \<exists>ts. tok_encode env q = Inr ts)
        \<and> tok_encode env failing = Inl e' \<longrightarrow>
      answer_question env question context max_answer_length = answer_error_result e'"
    using paragraph_encode_failure[of "context" env question question_tokens earlier failing later
        e' max_answer_length] by blast
  have a3: "\<not> too_short context \<and> split_context env question context = Inr (scored @ chunk # unscored)
        \<and> (\<forall>c \<in> set scored. \<exists>cs. chunk_candidates env question max_answer_length c = Inr cs)
        \<and> chunk_candidates env question max_answer_length chunk = Inl e' \<longrightarrow>
      answer_question env question context max_answer_length = answer_error_result e'"
    using chunk_failure[of "context" env question scored chunk unscored max_answer_length e'] by blast
  note a4 = chunk_candidates_failures[of env question chunk e' max_answer_length input_ids sl el
      start_indexes end_indexes before s t after]
  have a5: "answer_error_result e' =
        \<lparr>answer = ''Error processing your question: '' @ str_of_error e', confidence = Fin 0,
         has_answer = False, source_documents = None\<rparr>"
    by (simp add: answer_error_result_def)
  note parts = r1 r2 r3 r4 a1 a2 a3 a4[THEN conjunct1] a4[THEN conjunct2, THEN conjunct1]
    a4[THEN conjunct2, THEN conjunct2, THEN conjunct1]
    a4[THEN conjunct2, THEN conjunct2, THEN conjunct2] a5
  show ?thesis by (intro conjI) (rule parts)+
qed

theorem soft_failure_results_witness:
  "fst (retrieve_documents failing_store ''what is a contract?'' 5 (7/10))
     = \<lparr>matches = [], error = Some ''index unavailable''\<rparr>
   \<and> fst (retrieve_documents no_ids_store ''what is a contract?'' 5 (7/10))
     = \<lparr>matches = [], error = Some (str_of_error (KeyError ''ids''))\<rparr>
   \<and> chunk_fault short_row_result (7/10) 0 = None
   \<and> chunk_fault short_row_result (7/10) 1 = Some (IndexError ''list index out of range'')
   \<and> fst (retrieve_documents short_row_store ''what is a contract?'' 5 (7/10))
     = \<lparr>matches = [], error = Some ''list index out of range''\<rparr>
   \<and> \<not> too_short ''a contract is an agreement''
   \<and> answer_question failing_env ''what is a contract?'' ''a contract is an agreement'' 100
     = \<lparr>answer = ''Error processing your question: tokenizer unavailable'', confidence = Fin 0,
        has_answer = False, source_documents = None\<rparr>
   \<and> split_context model_failing_env ''what is a contract?'' ''a contract is an agreement''
     = Inr [''a contract is an agreement'']
   \<and> answer_question model_failing_env ''what is a contract?'' ''a contract is an agreement'' 100
     = \<lparr>answer = ''Error processing your question: model unavailable'', confidence = Fin 0,
        has_answer = False, source_documents = None\<rparr>
   \<and> answer_question decode_failing_env ''what is a contract?'' ''a contract is an agreement'' 100
     = \<lparr>answer = ''Error processing your question: decoder unavailable'', confidence = Fin 0,
        has_answer = False, source_documents = None\<rparr>"
proof -
  let ?q = "''what is a contract?''" and ?c = "''a contract is an agreement''"
  have q: "?q \<noteq> []" by simp
  have f1: "failing_store ?q 5 = Inl (CollaboratorError ''index unavailable'')"
    by (simp add: failing_store_def)
  from soft_failure_results[of ?q failing_store 5 "CollaboratorError ''index unavailable''" "7/10",
      THEN conjunct1] q f1
  have w1: "fst (retrieve_documents failing_store ?q 5 (7/10))
     = \<lparr>matches = [], error = Some ''index unavailable''\<rparr>"
    by simp
  have f2: "no_ids_store ?q 5 = Inr no_ids_result \<and> \<not> no_documents no_ids_result
      \<and> first_row ''ids'' (res_ids no_ids_result) = Inl (KeyError ''ids'')"
    by (simp add: no_ids_store_def no_ids_result_def no_documents_def first_row_def)
  from soft_failure_results[of ?q no_ids_store 5 "KeyError ''ids''" "7/10" no_ids_result,
      THEN conjunct2, THEN conjunct1] q f2
  have w2: "fst (retrieve_documents no_ids_store ?q 5 (7/10))
     = \<lparr>matches = [], error = Some (str_of_error (KeyError ''ids''))\<rparr>"
    by simp
  have c0: "chunk_fault short_row_result (7/10) 0 = None"
    by (simp add: chunk_fault_def short_row_result_def below_threshold_def metadata_at_def)
  have c1: "chunk_fault short_row_result (7/10) 1 = Some (IndexError ''list index out of range'')"
    by (simp add: chunk_fault_def short_row_result_def below_threshold_def)
  have f3: "short_row_store ?q 5 = Inr short_row_result \<and> \<not> no_documents short_row_result
      \<and> first_row ''ids'' (res_ids short_row_result) = Inr [''first'', ''second'']
      \<and> (1::nat) < length [''first'', ''second'']"
    by (simp add: short_row_store_def short_row_result_def no_documents_def first_row_def)
  have f3': "\<forall>j<1. chunk_fault short_row_result (7/10) j = None"
    using c0 by simp
  from soft_failure_results[of ?q short_row_store 5 "IndexError ''list index out of range''" "7/10"
      short_row_result "[''first'', ''second'']" 1,
      THEN conjunct2, THEN conjunct2, THEN conjunct1] q f3 f3' c1
  have w3: "fst (retrieve_documents short_row_store ?q 5 (7/10))
     = \<lparr>matches = [], error = Some ''list index out of range''\<rparr>"
    by simp
  have s: "\<not> too_short ?c" by code_simp
  have f4: "tok_encode failing_env ?q = Inl (CollaboratorError ''tokenizer unavailable'')"
    by (simp add: failing_env_def)
  note t4 = soft_failure_results[of _ _ _ _ _ _ _ _ ?c failing_env ?q
      "CollaboratorError ''tokenizer unavailable''" 100]
  from t4[THEN conjunct2, THEN conjunct2, THEN conjunct2, THEN conjunct2, THEN conjunct1] s f4
  have w4: "answer_question failing_env ?q ?c 100
     = answer_error_result (CollaboratorError ''tokenizer unavailable'')"
    by simp
  have sc: "split_context model_failing_env ?q ?c = Inr [?c]" by code_simp
  have f5: "tok_pair model_failing_env ?q ?c 512 = Inr (map of_char ?c)
      \<and> model_forward model_failing_env (map of_char ?c) = Inl (CollaboratorError ''model unavailable'')"
    by (simp add: model_failing_env_def mock_env_def)
  note t5 = soft_failure_results[of _ _ _ _ _ _ _ _ ?c model_failing_env ?q
      "CollaboratorError ''model unavailable''" 100 _ _ _ _ "[]" ?c "[]" "map of_char ?c"]
  from t5[THEN conjunct2, THEN conjunct2, THEN conjunct2, THEN conjunct2, THEN conjunct2,
      THEN conjunct2, THEN conjunct2, THEN conjunct2, THEN conjunct1] f5
  have cc: "chunk_candidates model_failing_env ?q 100 ?c = Inl (CollaboratorError ''model unavailable'')"
    by simp
  from t5[THEN conjunct2, THEN conjunct2, THEN conjunct2, THEN conjunct2, THEN conjunct2,
      THEN conjunct2, THEN conjunct1] s sc cc
  have w5: "answer_question model_failing_env ?q ?c 100
     = answer_error_result (CollaboratorError ''model unavailable'')"
    by simp
  have w6: "answer_question decode_failing_env ?q ?c 100
     = \<lparr>answer = ''Error processing your question: decoder unavailable'', confidence = Fin 0,
        has_answer = False, source_documents = None\<rparr>"
    by code_simp
  from w1 w2 c0 c1 w3 s w4 sc w5 w6 show ?thesis
    by (simp add: answer_error_result_def)
qed

section \<open>Chunks and the token budget\<close>

text \<open>
  A context of one non-blank paragraph is one chunk, whatever its token count: the loop
  only flushes a chunk that is not empty, and the final chunk is appended as it is.
\<close>

lemma split_nl_single: "CHR 0x0A \<notin> set s \<Longrightarrow> split_nl s = [s]"
  by (induction s) auto

lemma single_paragraph_chunk:
  assumes "CHR 0x0A \<notin> set context" and "strip context \<noteq> []"
    and "tok_encode env question = Inr question_tokens"
    and "tok_encode env context = Inr context_tokens"
  shows "split_context env question context = Inr [context]"
proof -
  from assms(2) have ne: "context \<noteq> []" by (auto simp: strip_def)
  have "paragraph_step env (max_context_tokens_of question_tokens) context ([], [], 0)
          = Inr ([], context, int (length context_tokens))"
    using assms(2,4) by (simp add: paragraph_step_def)
  then have "split_paragraphs env (max_context_tokens_of question_tokens) (split_nl context) ([], [], 0)
          = Inr ([], context, int (length context_tokens))"
    using assms(1) by (simp add: split_nl_single)
  then show ?thesis
    using assms(3) ne by (simp add: split_context_def)
qed

lemma strip_long_paragraph: "strip long_paragraph = long_paragraph"
proof -
  have a: "\<not> is_space (CHR ''a'')" by (simp add: is_space_def)
  have "dropWhile is_space (replicate 600 (CHR ''a'')) = replicate 600 (CHR ''a'')"
    using a by (simp add: dropWhile_eq_self_iff)
  then show ?thesis
    by (simp add: strip_def long_paragraph_def)
qed

text \<open>
  C5 at a context of one paragraph of 600 tokens, with a question of one token (budget
  508): the paragraph becomes the only chunk, whole, so the chunk has 600 tokens. The
  split by tokens of lines 143 to 148 does not run, since the chunk list is not empty.
\<close>

theorem split_context_oversize_paragraph:
  "split_context mock_env ''q'' long_paragraph = Inr [long_paragraph]
   \<and> chunk_token_counts mock_env [long_paragraph] = Inr [600]
   \<and> map_sum id max_context_tokens_of (tok_encode mock_env ''q'') = Inr 508"
proof -
  have n: "CHR 0x0A \<notin> set long_paragraph"
    by (simp add: long_paragraph_def)
  have s: "strip long_paragraph \<noteq> []"
    by (simp add: strip_long_paragraph) (simp add: long_paragraph_def)
  have a: "split_context mock_env ''q'' long_paragraph = Inr [long_paragraph]"
    by (rule single_paragraph_chunk[OF n s]) (simp_all add: mock_env_def)
  have b: "chunk_token_counts mock_env [long_paragraph] = Inr [600]"
    by (simp add: chunk_token_counts_def mock_env_def long_paragraph_def)
  have c: "map_sum id max_context_tokens_of (tok_encode mock_env ''q'') = Inr 508"
    by (simp add: mock_env_def max_context_tokens_of_def)
  from a b c show ?thesis by simp
qed

text \<open>
  The same holds of every context that passes the guard of line 100: it has a character
  that is not white space, that character lies in a paragraph that is not blank, and from
  that paragraph on the current chunk is not empty. So the chunk list is never empty and
  the split by tokens of lines 143 to 148 is dead code; the errors of the chunking are
  those of the tokenizer on the question and on the paragraphs.
\<close>

lemma strip_empty_iff: "strip s = [] \<longleftrightarrow> (\<forall>c \<in> set s. is_space c)"
proof -
  have a: "dropWhile is_space s = [] \<longleftrightarrow> (\<forall>c \<in> set s. is_space c)"
    by (simp add: dropWhile_eq_Nil_conv)
  have "strip s = [] \<longleftrightarrow> (\<forall>c \<in> set (dropWhile is_space s). is_space c)"
    by (simp add: strip_def dropWhile_eq_Nil_conv)
  also have "\<dots> \<longleftrightarrow> dropWhile is_space s = []"
  proof
    assume h: "\<forall>c \<in> set (dropWhile is_space s). is_space c"
    show "dropWhile is_space s = []"
    proof (rule ccontr)
      assume n: "dropWhile is_space s \<noteq> []"
      then have "\<not> is_space (hd (dropWhile is_space s))" by (rule hd_dropWhile)
      moreover from n have "hd (dropWhile is_space s) \<in> set (dropWhile is_space s)" by simp
      ultimately show False using h by blast
    qed
  next
    assume e: "dropWhile is_space s = []"
    show "\<forall>c \<in> set (dropWhile is_space s). is_space c" unfolding e by simp
  qed
  finally show ?thesis using a by simp
qed

lemma split_nl_chars:
  "c \<in> set s \<Longrightarrow> c \<noteq> CHR 0x0A \<Longrightarrow> \<exists>p \<in> set (split_nl s). c \<in> set p"
proof (induction s)
  case Nil
  then show ?case by simp
next
  case (Cons x xs)
  show ?case
  proof (cases "x = CHR 0x0A")
    case True
    with Cons show ?thesis by auto
  next
    case False
    obtain p ps where sp: "split_nl xs = p # ps"
      by (cases "split_nl xs") (cases xs; simp split: if_splits list.splits)+
    show ?thesis
    proof (cases "c = x")
      case True
      with False sp show ?thesis by simp
    next
      case c: False
      with Cons have "\<exists>q \<in> set (split_nl xs). c \<in> set q" by simp
      with False sp show ?thesis by auto
    qed
  qed
qed

lemma nonblank_paragraph_exists:
  assumes "strip s \<noteq> []"
  shows "\<exists>p \<in> set (split_nl s). strip p \<noteq> []"
proof -
  from assms obtain c where c: "c \<in> set s" "\<not> is_space c"
    by (auto simp: strip_empty_iff)
  then have "c \<noteq> CHR 0x0A" by (auto simp: is_space_def)
  from split_nl_chars[OF c(1) this] obtain p where "p \<in> set (split_nl s)" "c \<in> set p" by blast
  with c(2) show ?thesis by (auto simp: strip_empty_iff)
qed

lemma paragraph_step_current:
  assumes "paragraph_step env m p st = Inr st'" and "strip p \<noteq> [] \<or> fst (snd st) \<noteq> []"
  shows "fst (snd st') \<noteq> []"
proof (cases "strip p = []")
  case True
  with assms show ?thesis by (cases st) (simp add: paragraph_step_def)
next
  case False
  then have "p \<noteq> []" by (auto simp: strip_def)
  with assms(1) False show ?thesis
    by (cases st) (auto simp: paragraph_step_def bind_err_Inr_iff split: if_splits)
qed

lemma split_paragraphs_current:
  assumes "split_paragraphs env m ps st = Inr st'"
    and "fst (snd st) \<noteq> [] \<or> (\<exists>p \<in> set ps. strip p \<noteq> [])"
  shows "fst (snd st') \<noteq> []"
  using assms
proof (induction ps arbitrary: st)
  case Nil
  then show ?case by simp
next
  case (Cons x xs)
  from Cons.prems(1) obtain st1 where
    s1: "paragraph_step env m x st = Inr st1" and s2: "split_paragraphs env m xs st1 = Inr st'"
    by (auto split: sum.splits)
  show ?case
  proof (cases "strip x \<noteq> [] \<or> fst (snd st) \<noteq> []")
    case True
    from paragraph_step_current[OF s1 True] have "fst (snd st1) \<noteq> []" .
    with Cons.IH[OF s2] show ?thesis by simp
  next
    case False
    with Cons.prems(2) have "\<exists>p \<in> set xs. strip p \<noteq> []" by auto
    with Cons.IH[OF s2] show ?thesis by simp
  qed
qed

lemma split_context_no_fallback:
  assumes "\<not> too_short context"
  shows "split_context env question context =
     bind_err (tok_encode env question) (\<lambda>question_tokens.
       bind_err (split_paragraphs env (max_context_tokens_of question_tokens) (split_nl context)
                   ([], [], 0))
         (\<lambda>st. Inr (fst st @ [fst (snd st)])))"
proof (cases "tok_encode env question")
  case (Inl e)
  then show ?thesis by (simp add: split_context_def)
next
  case (Inr qt)
  from assms have "strip context \<noteq> []" by (auto simp: too_short_def)
  then have nb: "\<exists>p \<in> set (split_nl context). strip p \<noteq> []"
    by (rule nonblank_paragraph_exists)
  show ?thesis
  proof (cases "split_paragraphs env (max_context_tokens_of qt) (split_nl context) ([], [], 0)")
    case (Inl e)
    with Inr show ?thesis by (simp add: split_context_def)
  next
    case r: (Inr st)
    from split_paragraphs_current[OF r] nb have "fst (snd st) \<noteq> []" by simp
    with Inr r show ?thesis
      by (cases st) (simp add: split_context_def)
  qed
qed

section \<open>Sources reported by app.query_document\<close>

text \<open>Neither answer_question nor process_query sets \<open>source_documents\<close>.\<close>

lemma process_query_no_sources:
  "source_documents (fst (process_query env collection query use_retrieved_docs provided_docs)) = None"
  using process_query_result[of env collection query use_retrieved_docs provided_docs]
    answer_question_no_sources[of env query _ 100]
  by (auto simp: no_documents_result_def query_error_result_def)

lemma query_document_sources:
  "query_document init request_query = Answered a c h s \<Longrightarrow> s = []"
  by (auto simp: query_document_def Let_def source_docs_of_def process_query_no_sources
      split: option.splits sum.splits)

text \<open>
  C9 at a store whose two chunks carry the sources \<open>contract.pdf\<close> and \<open>notes.txt\<close>: the
  answer of the endpoint lists no sources, although the retrieved chunks carry them.
\<close>

theorem query_document_sources_dropped:
  "(case query_document (Inr (mock_env, two_chunk_store)) (Some ''what is a contract?'') of
      Answered a c h s \<Rightarrow> s = []
    | _ \<Rightarrow> False)
   \<and> map (\<lambda>d. map_of (rd_metadata d) ''source'')
         (fst (qa_retrieve_documents two_chunk_store ''what is a contract?'' 5))
       = [Some ''contract.pdf'', Some ''notes.txt'']"
proof -
  have a: "(case query_document (Inr (mock_env, two_chunk_store)) (Some ''what is a contract?'') of
      Answered a c h s \<Rightarrow> s = []
    | _ \<Rightarrow> False)"
    by (simp add: query_document_def Let_def source_docs_of_def process_query_no_sources)
  have b: "map (\<lambda>d. map_of (rd_metadata d) ''source'')
         (fst (qa_retrieve_documents two_chunk_store ''what is a contract?'' 5))
       = [Some ''contract.pdf'', Some ''notes.txt'']"
    by code_simp
  from a b show ?thesis by simp
qed

section \<open>Adding a chunk twice under one id\<close>

text \<open>
  C2 at two calls of upsert_embeddings with the id \<open>doc_1\<close>: the function hands the chunk
  to the library's \<open>add\<close>, so under either behaviour of \<open>add\<close> the collection still holds
  the text and metadata of the first call. With the library's \<open>upsert\<close> in its place the
  second call would overwrite them.
\<close>

theorem upsert_embeddings_keeps_first:
  "stored_under
     (snd (upsert_embeddings (chroma_add RejectExisting)
        (snd (upsert_embeddings (chroma_add RejectExisting) []
                [''old text''] (Some [[(''source'', ''a.txt'')]]) (Some [''doc_1''])))
        [''new text''] (Some [[(''source'', ''b.txt'')]]) (Some [''doc_1''])))
     ''doc_1'' = [(''doc_1'', ''old text'', [(''source'', ''a.txt'')])]
   \<and> stored_under
     (snd (upsert_embeddings (chroma_add SkipExisting)
        (snd (upsert_embeddings (chroma_add SkipExisting) []
                [''old text''] (Some [[(''source'', ''a.txt'')]]) (Some [''doc_1''])))
        [''new text''] (Some [[(''source'', ''b.txt'')]]) (Some [''doc_1''])))
     ''doc_1'' = [(''doc_1'', ''old text'', [(''source'', ''a.txt'')])]
   \<and> stored_under
     (snd (upsert_embeddings chroma_upsert
        (snd (upsert_embeddings chroma_upsert []
                [''old text''] (Some [[(''source'', ''a.txt'')]]) (Some [''doc_1''])))
        [''new text''] (Some [[(''source'', ''b.txt'')]]) (Some [''doc_1''])))
     ''doc_1'' = [(''doc_1'', ''new text'', [(''source'', ''b.txt'')])]"
  by (simp add: upsert_embeddings_def chroma_add_def chroma_upsert_def stored_under_def stored_ids_def)

end
